theory Spec2Isabelle
  imports Main "HOL-Library.Word"
begin

section \<open>The Marisk site server (src/server.js)\<close>

text \<open>
  A shallow embedding of the request handlers of \<^verbatim>\<open>src/server.js\<close>. The process
  state (the module-level variables \<^verbatim>\<open>faqs\<close>, \<^verbatim>\<open>gallery\<close>, \<^verbatim>\<open>localesCache\<close>,
  \<^verbatim>\<open>sessions\<close>) and the file system are one record that every handler takes and
  returns. What the handlers get from the JavaScript runtime and cannot be read off the
  repository (\<^verbatim>\<open>JSON.parse\<close> and \<^verbatim>\<open>JSON.stringify\<close> on everything but the FAQ
  documents, the base64 decoder of \<^verbatim>\<open>Buffer.from\<close>, the decimal form of a number,
  \<^verbatim>\<open>__dirname\<close>) is a parameter; the clock, the random bytes and the random draws are
  arguments of the handler that reads them.

  Strings are lists of 8-bit characters, read as the code units below 256 of a
  JavaScript string. The values of \<^verbatim>\<open>faqs\<close> and \<^verbatim>\<open>gallery\<close> are sequences of
  entries of the shape the handlers append: a question and an answer, both strings, for
  a FAQ.
\<close>

subsection \<open>Strings\<close>

text \<open>\<^verbatim>\<open>s.startsWith(p)\<close>, \<^verbatim>\<open>s.endsWith(p)\<close> and \<^verbatim>\<open>s.includes(p)\<close>.\<close>

definition startsWith :: "string \<Rightarrow> string \<Rightarrow> bool" where
  "startsWith s p = (take (length p) s = p)"

definition endsWith :: "string \<Rightarrow> string \<Rightarrow> bool" where
  "endsWith s p = (length p \<le> length s \<and> drop (length s - length p) s = p)"

fun includes_str :: "string \<Rightarrow> string \<Rightarrow> bool" where
  "includes_str [] p = (p = [])"
| "includes_str (c # cs) p = (startsWith (c # cs) p \<or> includes_str cs p)"

text \<open>\<^verbatim>\<open>s.split(sep)\<close> for a separator of one character: the pieces between the
  separators, empty pieces kept, so that the result is never empty.\<close>

fun split_str :: "char \<Rightarrow> string \<Rightarrow> string list" where
  "split_str sep [] = [[]]"
| "split_str sep (c # cs) =
     (if c = sep then [] # split_str sep cs
      else (case split_str sep cs of
              [] \<Rightarrow> [[c]]
            | w # ws \<Rightarrow> (c # w) # ws))"

text \<open>\<^verbatim>\<open>parts.join(sep)\<close>.\<close>

fun join :: "string \<Rightarrow> string list \<Rightarrow> string" where
  "join sep [] = []"
| "join sep [w] = w"
| "join sep (w # v # ws) = w @ sep @ join sep (v # ws)"

text \<open>\<^verbatim>\<open>s.trim()\<close> removes white space and line terminators at both ends; below 256
  these are the code units 9 to 13, 32 and 160.\<close>

definition isWhiteSpace :: "char \<Rightarrow> bool" where
  "isWhiteSpace c = (of_char c \<in> {9, 10, 11, 12, 13, 32, 160 :: nat})"

definition trim :: "string \<Rightarrow> string" where
  "trim s = rev (dropWhile isWhiteSpace (rev (dropWhile isWhiteSpace s)))"

text \<open>\<^verbatim>\<open>s.toLowerCase()\<close>: below 256 the upper-case letters are A to Z and the code
  units 192 to 222 without 215, each 32 below its lower-case letter.\<close>

definition lowerChar :: "char \<Rightarrow> char" where
  "lowerChar c =
     (let n = of_char c :: nat
      in if (65 \<le> n \<and> n \<le> 90) \<or> (192 \<le> n \<and> n \<le> 222 \<and> n \<noteq> 215)
         then char_of (n + 32) else c)"

definition toLowerCase :: "string \<Rightarrow> string" where
  "toLowerCase s = map lowerChar s"

text \<open>The decimal digits of a number, as a template literal prints it.\<close>

fun digits :: "nat \<Rightarrow> string" where
  "digits n = (if n < 10 then [char_of (48 + n)] else digits (n div 10) @ [char_of (48 + n mod 10)])"

declare digits.simps [simp del]

definition showInt :: "int \<Rightarrow> string" where
  "showInt i = (if i < 0 then CHR ''-'' # digits (nat (- i)) else digits (nat i))"

text \<open>\<^verbatim>\<open>buffer.toString('hex')\<close>: two lower-case hexadecimal digits for each byte.\<close>

definition hexDigit :: "nat \<Rightarrow> char" where
  "hexDigit n = (if n < 10 then char_of (48 + n) else char_of (87 + n))"

definition toHex :: "8 word list \<Rightarrow> string" where
  "toHex bs = concat (map (\<lambda>b. [hexDigit (unat b div 16), hexDigit (unat b mod 16)]) bs)"

subsection \<open>JSON values and plain objects\<close>

text \<open>The values \<^verbatim>\<open>JSON.parse\<close> produces. Numbers are kept as integers: the handlers
  only test a number for being zero and print it. An object is the list of its own
  properties, looked up with \<open>map_of\<close>.\<close>

datatype json =
    JNull
  | JBool bool
  | JNum int
  | JStr string
  | JArr "json list"
  | JObj "(string \<times> json) list"

text \<open>Truthiness, as \<^verbatim>\<open>!v\<close>, \<^verbatim>\<open>v || d\<close> and \<^verbatim>\<open>if (v)\<close> test it.\<close>

fun truthy :: "json \<Rightarrow> bool" where
  "truthy JNull = False"
| "truthy (JBool b) = b"
| "truthy (JNum n) = (n \<noteq> 0)"
| "truthy (JStr s) = (s \<noteq> [])"
| "truthy (JArr xs) = True"
| "truthy (JObj kvs) = True"

text \<open>The property names every plain object inherits from \<^verbatim>\<open>Object.prototype\<close>.
  The caches \<^verbatim>\<open>sessions\<close> and \<^verbatim>\<open>localesCache\<close> are plain objects (\<^verbatim>\<open>{}\<close>), so
  \<^verbatim>\<open>sessions[k]\<close> is the own property \<open>k\<close> when there is one, a built-in object when \<open>k\<close>
  is one of these names, and \<^verbatim>\<open>undefined\<close> otherwise.\<close>

definition inheritedNames :: "string list" where
  "inheritedNames =
     [''constructor'', ''hasOwnProperty'', ''isPrototypeOf'', ''propertyIsEnumerable'',
      ''toLocaleString'', ''toString'', ''valueOf'', ''__proto__'',
      ''__defineGetter__'', ''__defineSetter__'', ''__lookupGetter__'', ''__lookupSetter__'']"

datatype 'a property = Own 'a | Inherited | Undefined

definition getProperty :: "(string \<rightharpoonup> 'a) \<Rightarrow> string \<Rightarrow> 'a property" where
  "getProperty obj k =
     (case obj k of
        Some v \<Rightarrow> Own v
      | None \<Rightarrow> if k \<in> set inheritedNames then Inherited else Undefined)"

text \<open>The result of a function or a handler: its value, or \<open>Thrown\<close> where an exception
  leaves it (a promise that rejects, for \<^verbatim>\<open>getLocale\<close>). The model follows the source
  everywhere but into a built-in object: where a lookup is \<open>Inherited\<close> the source goes on
  with the prototype's function as if it were a session or a locale, and the model stops
  with \<open>OffModel\<close>.\<close>

datatype 'a run = Done 'a | Thrown | OffModel

subsection \<open>The process state\<close>

record faq =
  question :: string
  answer :: string

record galleryEntry =
  before :: string
  after :: string
  title :: json
  description :: json

datatype fsnode = File string | Dir

record state =
  faqs :: "faq list"
  gallery :: "galleryEntry list"
  localesCache :: "string \<rightharpoonup> json"
  sessions :: "string \<rightharpoonup> int"
  disk :: "string \<rightharpoonup> fsnode"
  writable :: "string \<Rightarrow> bool"

text \<open>\<open>sessions st token = Some t\<close> is the session object \<^verbatim>\<open>{ timestamp: t }\<close>; \<open>disk\<close> maps a
  path to what is there, and \<open>writable p\<close> tells whether \<^verbatim>\<open>fs.writeFileSync(p, ...)\<close> goes
  through or throws.\<close>

record request =
  authorization :: "string option"
  contentType :: "string option"
  body :: string

datatype response =
    Json nat json
  | Plain nat string
  | Content string

subsection \<open>Sessions\<close>

text \<open>\<^verbatim>\<open>isAuthenticated(req)\<close>, lines 178 to 195, at the time \<open>now\<close> that \<^verbatim>\<open>Date.now()\<close>
  returns.\<close>

definition isAuthenticated :: "request \<Rightarrow> int \<Rightarrow> state \<Rightarrow> (bool \<times> state) run" where
  "isAuthenticated req now st =
     (case authorization req of
        None \<Rightarrow> Done (False, st)
      | Some auth \<Rightarrow>
          if auth = [] then Done (False, st)
          else (case split_str CHR '' '' auth of
                  [p0, token] \<Rightarrow>
                    if p0 \<noteq> ''Bearer'' then Done (False, st)
                    else (case getProperty (sessions st) token of
                            Undefined \<Rightarrow> Done (False, st)
                          | Inherited \<Rightarrow> OffModel
                          | Own timestamp \<Rightarrow>
                              if now - timestamp > 24 * 60 * 60 * 1000
                              then Done (False, st\<lparr>sessions := (sessions st)(token := None)\<rparr>)
                              else Done (True, st\<lparr>sessions := (sessions st)(token \<mapsto> now)\<rparr>))
                | _ \<Rightarrow> Done (False, st)))"

subsection \<open>Paths and files\<close>

text \<open>\<^verbatim>\<open>path.normalize\<close>, \<^verbatim>\<open>path.join\<close> and \<^verbatim>\<open>path.resolve\<close> of POSIX, on absolute paths:
  the server builds every path from \<^verbatim>\<open>__dirname\<close>. Empty and \<^verbatim>\<open>.\<close> segments are
  dropped, \<^verbatim>\<open>..\<close> removes the segment before it and stays at the root when there is
  none. \<^verbatim>\<open>normalize\<close> keeps one trailing separator, \<^verbatim>\<open>resolve\<close> keeps none.\<close>

fun resolveSegments :: "string list \<Rightarrow> string list \<Rightarrow> string list" where
  "resolveSegments acc [] = acc"
| "resolveSegments acc (s # ss) =
     (if s = [] \<or> s = ''.'' then resolveSegments acc ss
      else if s = ''..'' then resolveSegments (butlast acc) ss
      else resolveSegments (acc @ [s]) ss)"

definition path_normalize :: "string \<Rightarrow> string" where
  "path_normalize p =
     (let segs = resolveSegments [] (split_str CHR ''/'' p)
      in CHR ''/'' # join ''/'' segs @ (if segs \<noteq> [] \<and> endsWith p ''/'' then ''/'' else []))"

definition path_join :: "string list \<Rightarrow> string" where
  "path_join parts = path_normalize (join ''/'' (filter (\<lambda>s. s \<noteq> []) parts))"

definition path_resolve :: "string \<Rightarrow> string" where
  "path_resolve p = CHR ''/'' # join ''/'' (resolveSegments [] (split_str CHR ''/'' p))"

subsection \<open>The FAQ document\<close>

text \<open>The value of \<^verbatim>\<open>faqs\<close> as JSON, which \<^verbatim>\<open>GET /api/faqs\<close> (lines 221 to 223) sends
  and the add-FAQ handler writes to \<^verbatim>\<open>faqs.json\<close>, and the way back from such a value.\<close>

definition faqsJson :: "faq list \<Rightarrow> json" where
  "faqsJson fs = JArr (map (\<lambda>f. JObj [(''question'', JStr (question f)), (''answer'', JStr (answer f))]) fs)"

fun faqOf :: "json \<Rightarrow> faq option" where
  "faqOf (JObj [(k1, JStr q), (k2, JStr a)]) =
     (if k1 = ''question'' \<and> k2 = ''answer'' then Some \<lparr>question = q, answer = a\<rparr> else None)"
| "faqOf v = None"

fun allSome :: "'a option list \<Rightarrow> 'a list option" where
  "allSome [] = Some []"
| "allSome (x # xs) =
     (case x of
        None \<Rightarrow> None
      | Some v \<Rightarrow> (case allSome xs of None \<Rightarrow> None | Some vs \<Rightarrow> Some (v # vs)))"

fun faqsOf :: "json \<Rightarrow> faq list option" where
  "faqsOf (JArr xs) = allSome (map faqOf xs)"
| "faqsOf v = None"

text \<open>\<^verbatim>\<open>JSON.stringify(faqs, null, 2)\<close> for a sequence of FAQs. A string is quoted with
  the escapes of the standard: the quotation mark and the backslash after a backslash,
  the code units 8, 9, 10, 12 and 13 as \<^verbatim>\<open>\b\<close>, \<^verbatim>\<open>\t\<close>, \<^verbatim>\<open>\n\<close>, \<^verbatim>\<open>\f\<close>, \<^verbatim>\<open>\r\<close>, any
  other code unit below 32 as \<^verbatim>\<open>\u00\<close> and two hexadecimal digits, everything else as it
  is. An empty array is \<^verbatim>\<open>[]\<close>; otherwise every entry is on lines of its own, indented
  by two spaces, its two members by four.\<close>

definition nl :: string where
  "nl = [char_of (10 :: nat)]"

definition dquote :: char where
  "dquote = char_of (34 :: nat)"

definition backslash :: char where
  "backslash = char_of (92 :: nat)"

definition escapeChar :: "char \<Rightarrow> string" where
  "escapeChar c =
     (let n = of_char c :: nat
      in if c = dquote then [backslash, dquote]
         else if c = backslash then [backslash, backslash]
         else if n = 8 then [backslash, CHR ''b'']
         else if n = 9 then [backslash, CHR ''t'']
         else if n = 10 then [backslash, CHR ''n'']
         else if n = 12 then [backslash, CHR ''f'']
         else if n = 13 then [backslash, CHR ''r'']
         else if n < 32
         then [backslash, CHR ''u'', CHR ''0'', CHR ''0'', hexDigit (n div 16), hexDigit (n mod 16)]
         else [c])"

definition quoteJSON :: "string \<Rightarrow> string" where
  "quoteJSON s = dquote # concat (map escapeChar s) @ [dquote]"

definition stringifyFaq :: "faq \<Rightarrow> string" where
  "stringifyFaq f =
     ''  {'' @ nl
     @ ''    '' @ quoteJSON ''question'' @ '': '' @ quoteJSON (question f) @ '','' @ nl
     @ ''    '' @ quoteJSON ''answer'' @ '': '' @ quoteJSON (answer f) @ nl
     @ ''  }''"

definition stringifyFaqs :: "faq list \<Rightarrow> string" where
  "stringifyFaqs fs =
     (if fs = [] then ''[]''
      else ''['' @ nl @ join ('','' @ nl) (map stringifyFaq fs) @ nl @ '']'')"

text \<open>\<^verbatim>\<open>JSON.parse\<close> on the documents of this form. \<open>unquote\<close> reads a string after its
  opening quotation mark, up to the closing one, and gives the string and the rest of the
  text; it knows the escapes above and refuses a bare code unit below 32, as the standard
  does. \<open>parseFaqs\<close> gives no result on any other text, which says nothing of what
  \<^verbatim>\<open>JSON.parse\<close> does there.\<close>

definition unhex :: "char \<Rightarrow> nat option" where
  "unhex c =
     (let n = of_char c :: nat
      in if 48 \<le> n \<and> n \<le> 57 then Some (n - 48)
         else if 97 \<le> n \<and> n \<le> 102 then Some (n - 87)
         else None)"

definition unescape :: "char \<Rightarrow> char option" where
  "unescape e =
     (if e = dquote then Some dquote
      else if e = backslash then Some backslash
      else if e = CHR ''b'' then Some (char_of (8 :: nat))
      else if e = CHR ''t'' then Some (char_of (9 :: nat))
      else if e = CHR ''n'' then Some (char_of (10 :: nat))
      else if e = CHR ''f'' then Some (char_of (12 :: nat))
      else if e = CHR ''r'' then Some (char_of (13 :: nat))
      else None)"

definition consChar :: "char \<Rightarrow> (string \<times> string) option \<Rightarrow> (string \<times> string) option" where
  "consChar c r = (case r of None \<Rightarrow> None | Some (s, rest) \<Rightarrow> Some (c # s, rest))"

fun unquote :: "string \<Rightarrow> (string \<times> string) option" where
  "unquote [] = None"
| "unquote (c # cs) =
     (if c = dquote then Some ([], cs)
      else if c = backslash
      then (case cs of
              [] \<Rightarrow> None
            | e # r \<Rightarrow>
                if e = CHR ''u''
                then (case r of
                        a # b # h # l # r' \<Rightarrow>
                          if a = CHR ''0'' \<and> b = CHR ''0''
                          then (case (unhex h, unhex l) of
                                  (Some x, Some y) \<Rightarrow> consChar (char_of (16 * x + y)) (unquote r')
                                | _ \<Rightarrow> None)
                          else None
                      | _ \<Rightarrow> None)
                else (case unescape e of
                        None \<Rightarrow> None
                      | Some ch \<Rightarrow> consChar ch (unquote r)))
      else if of_char c < (32 :: nat) then None
      else consChar c (unquote cs))"

definition stripPrefix :: "string \<Rightarrow> string \<Rightarrow> string option" where
  "stripPrefix p s = (if startsWith s p then Some (drop (length p) s) else None)"

definition parseFaq :: "string \<Rightarrow> (faq \<times> string) option" where
  "parseFaq r =
     (case stripPrefix (''  {'' @ nl @ ''    '' @ quoteJSON ''question'' @ '': '' @ [dquote]) r of
        None \<Rightarrow> None
      | Some r1 \<Rightarrow>
          (case unquote r1 of
             None \<Rightarrow> None
           | Some (q, r2) \<Rightarrow>
               (case stripPrefix ('','' @ nl @ ''    '' @ quoteJSON ''answer'' @ '': '' @ [dquote]) r2 of
                  None \<Rightarrow> None
                | Some r3 \<Rightarrow>
                    (case unquote r3 of
                       None \<Rightarrow> None
                     | Some (a, r4) \<Rightarrow>
                         (case stripPrefix (nl @ ''  }'') r4 of
                            None \<Rightarrow> None
                          | Some r5 \<Rightarrow> Some (\<lparr>question = q, answer = a\<rparr>, r5))))))"

text \<open>The entries up to the closing bracket. The first argument bounds their number; the
  length of the text is enough.\<close>

fun parseEntries :: "nat \<Rightarrow> string \<Rightarrow> faq list option" where
  "parseEntries 0 r = None"
| "parseEntries (Suc n) r =
     (case parseFaq r of
        None \<Rightarrow> None
      | Some (f, r1) \<Rightarrow>
          if r1 = nl @ '']'' then Some [f]
          else (case stripPrefix ('','' @ nl) r1 of
                  None \<Rightarrow> None
                | Some r2 \<Rightarrow>
                    (case parseEntries n r2 of None \<Rightarrow> None | Some fs \<Rightarrow> Some (f # fs))))"

definition parseFaqs :: "string \<Rightarrow> faq list option" where
  "parseFaqs s =
     (if s = ''[]'' then Some []
      else (case stripPrefix (''['' @ nl) s of
              None \<Rightarrow> None
            | Some r \<Rightarrow> parseEntries (length r) r))"

text \<open>What the runtime supplies: \<^verbatim>\<open>__dirname\<close>; \<^verbatim>\<open>Buffer.from(s, 'base64')\<close>; the
  decimal form of a number, as \<^verbatim>\<open>String(n)\<close> gives it; and \<^verbatim>\<open>JSON.parse\<close> (with \<open>None\<close>
  where it throws) and \<^verbatim>\<open>JSON.stringify(v, null, 2)\<close> on everything but the FAQ
  documents, where they are as written out above.\<close>

record runtime =
  dirname :: string
  parseOther :: "string \<Rightarrow> json option"
  stringifyOther :: "json \<Rightarrow> string"
  base64 :: "string \<Rightarrow> string"
  numberToString :: "int \<Rightarrow> string"

definition JSON_parse :: "runtime \<Rightarrow> string \<Rightarrow> json option" where
  "JSON_parse R s =
     (case parseFaqs s of
        Some fs \<Rightarrow> Some (faqsJson fs)
      | None \<Rightarrow> parseOther R s)"

definition JSON_stringify :: "runtime \<Rightarrow> json \<Rightarrow> string" where
  "JSON_stringify R v =
     (case faqsOf v of
        Some fs \<Rightarrow> stringifyFaqs fs
      | None \<Rightarrow> stringifyOther R v)"

definition publicDir :: "runtime \<Rightarrow> string" where
  "publicDir R = path_join [dirname R, ''public'']"

definition dataDir :: "runtime \<Rightarrow> string" where
  "dataDir R = path_join [dirname R, ''data'']"

text \<open>Reading a file fails where there is none or a directory; \<^verbatim>\<open>fs.writeFileSync\<close>
  replaces the whole file or throws (\<open>None\<close>).\<close>

definition readFile :: "state \<Rightarrow> string \<Rightarrow> string option" where
  "readFile st p = (case disk st p of Some (File contents) \<Rightarrow> Some contents | _ \<Rightarrow> None)"

definition writeFileSync :: "string \<Rightarrow> string \<Rightarrow> state \<Rightarrow> state option" where
  "writeFileSync p contents st =
     (if writable st p then Some (st\<lparr>disk := (disk st)(p \<mapsto> File contents)\<rparr>) else None)"

subsection \<open>Request bodies\<close>

text \<open>\<^verbatim>\<open>parseBody(req)\<close>, lines 115 to 139: the parsed body when the content type
  names JSON, the empty object otherwise and when the body does not parse. \<open>body req\<close> is
  the whole body as the \<^verbatim>\<open>end\<close> event finds it; the limit of 20 MB, which closes the
  connection, is left out.\<close>

definition parseBody :: "runtime \<Rightarrow> request \<Rightarrow> json" where
  "parseBody R req =
     (let ct = (case contentType req of None \<Rightarrow> [] | Some c \<Rightarrow> c)
      in if includes_str ct ''application/json''
         then (case JSON_parse R (if body req = [] then ''{}'' else body req) of
                 Some v \<Rightarrow> v
               | None \<Rightarrow> JObj [])
         else JObj [])"

text \<open>\<^verbatim>\<open>v.k\<close> for the property names the handlers read (\<^verbatim>\<open>question\<close>, \<^verbatim>\<open>answer\<close>,
  \<^verbatim>\<open>lang\<close>, \<^verbatim>\<open>username\<close>, \<^verbatim>\<open>password\<close>, \<^verbatim>\<open>before\<close>, \<^verbatim>\<open>after\<close>, \<^verbatim>\<open>title\<close>,
  \<^verbatim>\<open>description\<close>, \<^verbatim>\<open>chat_no_answer\<close>): only an object has them, \<open>None\<close> is
  \<^verbatim>\<open>undefined\<close>. On \<^verbatim>\<open>null\<close> the access throws a TypeError, which the handlers below
  test for first.\<close>

fun field :: "json \<Rightarrow> string \<Rightarrow> json option" where
  "field (JObj kvs) k = map_of kvs k"
| "field v k = None"

text \<open>The answer to an exception that reaches the \<^verbatim>\<open>catch\<close> of the request listener,
  lines 348 to 352.\<close>

definition serverError :: response where
  "serverError = Plain 500 ''Internal Server Error''"

text \<open>\<^verbatim>\<open>POST /api/admin/login\<close>, lines 265 to 275, with the 16 bytes that
  \<^verbatim>\<open>crypto.randomBytes(16)\<close> returns.\<close>

definition login :: "runtime \<Rightarrow> request \<Rightarrow> int \<Rightarrow> 8 word list \<Rightarrow> state \<Rightarrow> response \<times> state" where
  "login R req now bytes st =
     (let body = parseBody R req
      in if body = JNull then (serverError, st)
         else if field body ''username'' = Some (JStr ''admin'')
                 \<and> field body ''password'' = Some (JStr ''admin'')
         then (let token = toHex bytes
               in (Json 200 (JObj [(''token'', JStr token)]),
                   st\<lparr>sessions := (sessions st)(token \<mapsto> now)\<rparr>))
         else (Json 401 (JObj [(''error'', JStr ''Invalid credentials'')]), st))"

subsection \<open>Locales\<close>

text \<open>\<^verbatim>\<open>getLocale(lang)\<close>, lines 147 to 170. The cache test \<^verbatim>\<open>if (localesCache[lang])\<close>
  passes on a truthy value only. \<^verbatim>\<open>fs.readFile\<close> refuses a path that holds a NUL
  character before it reads: it throws inside the promise, which then rejects.\<close>

definition localePath :: "runtime \<Rightarrow> string \<Rightarrow> string" where
  "localePath R lang = path_join [dataDir R, ''locales'', lang @ ''.json'']"

definition cachedLocale :: "state \<Rightarrow> string \<Rightarrow> json option run" where
  "cachedLocale st lang =
     (case getProperty (localesCache st) lang of
        Own v \<Rightarrow> Done (if truthy v then Some v else None)
      | Inherited \<Rightarrow> OffModel
      | Undefined \<Rightarrow> Done None)"

function getLocale :: "runtime \<Rightarrow> string \<Rightarrow> state \<Rightarrow> (json \<times> state) run" where
  "getLocale R lang st =
     (case cachedLocale st lang of
        OffModel \<Rightarrow> OffModel
      | Done (Some v) \<Rightarrow> Done (v, st)
      | Thrown \<Rightarrow> Thrown
      | Done None \<Rightarrow>
          if char_of (0 :: nat) \<in> set (localePath R lang) then Thrown
          else (case readFile st (localePath R lang) of
                  None \<Rightarrow>
                    if lang \<noteq> ''en'' then getLocale R ''en'' st
                    else Done (JObj [], st)
                | Some data \<Rightarrow>
                    (case JSON_parse R data of
                       None \<Rightarrow> Done (JObj [], st)
                     | Some obj \<Rightarrow>
                         Done (obj, st\<lparr>localesCache := (localesCache st)(lang \<mapsto> obj)\<rparr>))))"
  by pat_completeness auto
termination
  by (relation "measure (\<lambda>(R, lang, st). if lang = ''en'' then 0 else 1)") auto

declare getLocale.simps [simp del]

subsection \<open>FAQs\<close>

text \<open>\<^verbatim>\<open>GET /api/faqs\<close>, lines 221 to 223.\<close>

definition listFaqs :: "state \<Rightarrow> response" where
  "listFaqs st = Json 200 (faqsJson (faqs st))"

definition faqsPath :: "runtime \<Rightarrow> string" where
  "faqsPath R = path_join [dataDir R, ''faqs.json'']"

text \<open>\<^verbatim>\<open>POST /api/admin/add-faq\<close>, lines 277 to 294. A failed write is logged and
  nothing else.\<close>

definition addFaq :: "runtime \<Rightarrow> request \<Rightarrow> int \<Rightarrow> state \<Rightarrow> (response \<times> state) run" where
  "addFaq R req now st =
     (case isAuthenticated req now st of
        OffModel \<Rightarrow> OffModel
      | Thrown \<Rightarrow> Done (serverError, st)
      | Done (False, st1) \<Rightarrow> Done (Json 403 (JObj [(''error'', JStr ''Unauthorized'')]), st1)
      | Done (True, st1) \<Rightarrow>
          (let body = parseBody R req
           in if body = JNull then Done (serverError, st1)
              else (case (field body ''question'', field body ''answer'') of
                      (Some (JStr q), Some (JStr a)) \<Rightarrow>
                        if trim q \<noteq> [] \<and> trim a \<noteq> []
                        then (let st2 = st1\<lparr>faqs := faqs st1 @ [\<lparr>question = trim q, answer = trim a\<rparr>]\<rparr>;
                                  st3 = (case writeFileSync (faqsPath R)
                                                (JSON_stringify R (faqsJson (faqs st2))) st2 of
                                           Some st' \<Rightarrow> st'
                                         | None \<Rightarrow> st2)
                              in Done (Json 200 (JObj [(''success'', JBool True)]), st3))
                        else Done (Json 400 (JObj [(''error'', JStr ''Invalid payload'')]), st1)
                    | _ \<Rightarrow> Done (Json 400 (JObj [(''error'', JStr ''Invalid payload'')]), st1))))"

text \<open>\<^verbatim>\<open>GET /api/faqs-suggestions\<close>, lines 229 to 237. \<open>draws\<close> are the values of
  \<^verbatim>\<open>Math.floor(Math.random() * faqs.length)\<close> in the order the loop takes them; a
  \<^verbatim>\<open>Set\<close> keeps its members in insertion order. The loop has no bound of its own: where
  the draws end before it does, the result is \<open>None\<close>.\<close>

fun drawIndices :: "nat \<Rightarrow> nat list \<Rightarrow> nat list \<Rightarrow> nat list option" where
  "drawIndices count indices [] = (if length indices < count then None else Some indices)"
| "drawIndices count indices (r # rs) =
     (if length indices < count
      then drawIndices count (if r \<in> set indices then indices else indices @ [r]) rs
      else Some indices)"

definition suggestions :: "nat list \<Rightarrow> state \<Rightarrow> response option" where
  "suggestions draws st =
     (let count = min 5 (length (faqs st))
      in case drawIndices count [] draws of
           None \<Rightarrow> None
         | Some indices \<Rightarrow>
             Some (if \<forall>i \<in> set indices. i < length (faqs st)
                   then Json 200 (JArr (map (\<lambda>i. JStr (question (faqs st ! i))) indices))
                   else serverError))"

subsection \<open>Chat\<close>

text \<open>Lines 243 to 257: the value of \<^verbatim>\<open>answer\<close> after the search, \<open>None\<close> for
  \<^verbatim>\<open>null\<close>. \<open>find\<close> is \<^verbatim>\<open>Array.prototype.find\<close>: the first element that passes.\<close>

definition chatMatch :: "faq list \<Rightarrow> string \<Rightarrow> string option" where
  "chatMatch fs q =
     (if q = [] then None
      else (let lower = toLowerCase q
            in case find (\<lambda>faq. toLowerCase (question faq) = lower) fs of
                 Some m \<Rightarrow> Some (answer m)
               | None \<Rightarrow>
                   (case find (\<lambda>faq. includes_str lower (toLowerCase (question faq))
                                    \<or> includes_str (toLowerCase (question faq)) lower) fs of
                      Some p \<Rightarrow> Some (answer p)
                    | None \<Rightarrow> None)))"

text \<open>\<^verbatim>\<open>(v || d).trim()\<close>: \<open>None\<close> where \<^verbatim>\<open>v\<close> is truthy and no string, so that
  \<^verbatim>\<open>trim\<close> is not a function.\<close>

definition trimmedOr :: "json option \<Rightarrow> string \<Rightarrow> string option" where
  "trimmedOr v d =
     (case v of
        None \<Rightarrow> Some (trim d)
      | Some x \<Rightarrow>
          if \<not> truthy x then Some (trim d)
          else (case x of JStr s \<Rightarrow> Some (trim s) | _ \<Rightarrow> None))"

definition defaultAnswer :: string where
  "defaultAnswer = ''Sorry, I don't know the answer.''"

text \<open>Lines 258 to 262: the answer when the search gave none. A promise that rejects
  throws at \<^verbatim>\<open>await\<close>, and the request listener answers 500.\<close>

definition noAnswer :: "runtime \<Rightarrow> string \<Rightarrow> state \<Rightarrow> (response \<times> state) run" where
  "noAnswer R lang st =
     (case getLocale R lang st of
        OffModel \<Rightarrow> OffModel
      | Thrown \<Rightarrow> Done (serverError, st)
      | Done (localeObj, st') \<Rightarrow>
          if localeObj = JNull then Done (serverError, st')
          else Done (Json 200 (JObj [(''answer'',
                       (case field localeObj ''chat_no_answer'' of
                          Some x \<Rightarrow> if truthy x then x else JStr defaultAnswer
                        | None \<Rightarrow> JStr defaultAnswer))]), st'))"

text \<open>\<^verbatim>\<open>POST /api/chat\<close>, lines 239 to 263.\<close>

definition chat :: "runtime \<Rightarrow> request \<Rightarrow> state \<Rightarrow> (response \<times> state) run" where
  "chat R req st =
     (let body = parseBody R req
      in if body = JNull then Done (serverError, st)
         else (case (trimmedOr (field body ''question'') [], trimmedOr (field body ''lang'') ''en'') of
                 (Some q, Some lang) \<Rightarrow>
                   (case chatMatch (faqs st) q of
                      Some a \<Rightarrow>
                        if a \<noteq> [] then Done (Json 200 (JObj [(''answer'', JStr a)]), st)
                        else noAnswer R lang st
                    | None \<Rightarrow> noAnswer R lang st)
               | _ \<Rightarrow> Done (serverError, st)))"

subsection \<open>Image upload\<close>

text \<open>The pattern \<^verbatim>\<open>/^data:image\/(png|jpeg);base64,(.+)$/\<close> of line 307, with the two
  groups it captures. Without flags \<^verbatim>\<open>.\<close> is any character but a line terminator (below
  256 the code units 10 and 13) and \<^verbatim>\<open>$\<close> is the end of the input.\<close>

definition isLineTerminator :: "char \<Rightarrow> bool" where
  "isLineTerminator c = (of_char c \<in> {10, 13 :: nat})"

definition dataUriMatch :: "string \<Rightarrow> (string \<times> string) option" where
  "dataUriMatch s =
     (let rest = (\<lambda>header. drop (length header) s);
          payload = (\<lambda>p. p \<noteq> [] \<and> list_all (\<lambda>c. \<not> isLineTerminator c) p)
      in if startsWith s ''data:image/png;base64,'' \<and> payload (rest ''data:image/png;base64,'')
         then Some (''png'', rest ''data:image/png;base64,'')
         else if startsWith s ''data:image/jpeg;base64,'' \<and> payload (rest ''data:image/jpeg;base64,'')
         then Some (''jpeg'', rest ''data:image/jpeg;base64,'')
         else None)"

text \<open>\<^verbatim>\<open>String(v)\<close>, which \<^verbatim>\<open>RegExp.prototype.exec\<close> applies to its argument; \<open>None\<close>
  is a TypeError. An object is turned into a string by its \<^verbatim>\<open>toString\<close>: the inherited
  one gives \<^verbatim>\<open>[object Object]\<close>; an own property of that name, which in a parsed value is
  never a function, leaves only \<^verbatim>\<open>valueOf\<close>, which gives no primitive value, and the
  conversion throws. An array joins the strings of its elements with commas, \<^verbatim>\<open>null\<close>
  counting as the empty string.\<close>

fun toStr :: "runtime \<Rightarrow> json \<Rightarrow> string option" where
  "toStr R JNull = Some ''null''"
| "toStr R (JBool b) = Some (if b then ''true'' else ''false'')"
| "toStr R (JNum n) = Some (numberToString R n)"
| "toStr R (JStr s) = Some s"
| "toStr R (JArr xs) =
     (case allSome (map (\<lambda>x. if x = JNull then Some [] else toStr R x) xs) of
        None \<Rightarrow> None
      | Some parts \<Rightarrow> Some (join '','' parts))"
| "toStr R (JObj kvs) = (if map_of kvs ''toString'' = None then Some ''[object Object]'' else None)"

text \<open>\<^verbatim>\<open>saveImage(dataUri, prefix)\<close>, lines 306 to 315, at the time \<open>now\<close> and with the 4
  bytes of \<^verbatim>\<open>crypto.randomBytes(4)\<close>. The outer \<open>None\<close> is the exception of
  \<^verbatim>\<open>fs.writeFileSync\<close>, the inner one the return value \<^verbatim>\<open>null\<close>.\<close>

definition imageName :: "string \<Rightarrow> int \<Rightarrow> 8 word list \<Rightarrow> string \<Rightarrow> string" where
  "imageName prefix now bytes ext = prefix @ ''-'' @ showInt now @ ''-'' @ toHex bytes @ ''.'' @ ext"

definition imagePath :: "runtime \<Rightarrow> string \<Rightarrow> string" where
  "imagePath R filename = path_join [publicDir R, ''assets'', ''img'', filename]"

definition saveImage ::
    "runtime \<Rightarrow> int \<Rightarrow> 8 word list \<Rightarrow> string \<Rightarrow> string \<Rightarrow> state \<Rightarrow> (string option \<times> state) option" where
  "saveImage R now bytes dataUri prefix st =
     (case dataUriMatch dataUri of
        None \<Rightarrow> Some (None, st)
      | Some (m1, m2) \<Rightarrow>
          (let ext = (if m1 = ''jpeg'' then ''jpg'' else m1);
               buffer = base64 R m2;
               filename = imageName prefix now bytes ext;
               outputPath = imagePath R filename
           in case writeFileSync outputPath buffer st of
                None \<Rightarrow> None
              | Some st' \<Rightarrow> Some (Some (''assets/img/'' @ filename), st')))"

definition entryJson :: "galleryEntry \<Rightarrow> json" where
  "entryJson e =
     JObj [(''before'', JStr (before e)), (''after'', JStr (after e)),
           (''title'', title e), (''description'', description e)]"

definition galleryPath :: "runtime \<Rightarrow> string" where
  "galleryPath R = path_join [dataDir R, ''gallery.json'']"

definition orEmpty :: "json option \<Rightarrow> json" where
  "orEmpty v = (case v of Some x \<Rightarrow> if truthy x then x else JStr [] | None \<Rightarrow> JStr [])"

definition saveFailed :: response where
  "saveFailed = Json 500 (JObj [(''error'', JStr ''Failed to save images'')])"

text \<open>\<^verbatim>\<open>POST /api/admin/upload-image\<close>, lines 296 to 329. \<open>t0\<close> is the time of the
  session check; \<open>t1\<close>, \<open>bytes1\<close> and \<open>t2\<close>, \<open>bytes2\<close> are the clock and the random bytes
  of the two calls of \<^verbatim>\<open>saveImage\<close>. \<open>saveImageOf\<close> is \<^verbatim>\<open>saveImage\<close> on a value of the
  body: the pattern is applied to its string, and both the TypeError of the conversion and
  the exception of the write end in the \<^verbatim>\<open>catch\<close> of line 325.\<close>

definition saveImageOf ::
    "runtime \<Rightarrow> int \<Rightarrow> 8 word list \<Rightarrow> json \<Rightarrow> string \<Rightarrow> state \<Rightarrow> (string option \<times> state) option" where
  "saveImageOf R now bytes v prefix st =
     (case toStr R v of
        None \<Rightarrow> None
      | Some dataUri \<Rightarrow> saveImage R now bytes dataUri prefix st)"

definition uploadImage ::
    "runtime \<Rightarrow> request \<Rightarrow> int \<Rightarrow> int \<Rightarrow> 8 word list \<Rightarrow> int \<Rightarrow> 8 word list \<Rightarrow> state
       \<Rightarrow> (response \<times> state) run" where
  "uploadImage R req t0 t1 bytes1 t2 bytes2 st =
     (case isAuthenticated req t0 st of
        OffModel \<Rightarrow> OffModel
      | Thrown \<Rightarrow> Done (serverError, st)
      | Done (False, st1) \<Rightarrow> Done (Json 403 (JObj [(''error'', JStr ''Unauthorized'')]), st1)
      | Done (True, st1) \<Rightarrow>
          (let body = parseBody R req
           in if body = JNull then Done (serverError, st1)
              else (case (field body ''before'', field body ''after'') of
                      (Some b, Some a) \<Rightarrow>
                        if \<not> truthy b \<or> \<not> truthy a
                        then Done (Json 400 (JObj [(''error'', JStr ''Missing images'')]), st1)
                        else (case saveImageOf R t1 bytes1 b ''before'' st1 of
                                None \<Rightarrow> Done (saveFailed, st1)
                              | Some (beforePath, st2) \<Rightarrow>
                                  (case saveImageOf R t2 bytes2 a ''after'' st2 of
                                     None \<Rightarrow> Done (saveFailed, st2)
                                   | Some (afterPath, st3) \<Rightarrow>
                                       (case (beforePath, afterPath) of
                                          (Some bp, Some ap) \<Rightarrow>
                                            (let newEntry = \<lparr>before = bp, after = ap,
                                                   title = orEmpty (field body ''title''),
                                                   description = orEmpty (field body ''description'')\<rparr>;
                                                 st4 = st3\<lparr>gallery := gallery st3 @ [newEntry]\<rparr>
                                             in case writeFileSync (galleryPath R)
                                                       (JSON_stringify R (JArr (map entryJson (gallery st4)))) st4 of
                                                  None \<Rightarrow> Done (saveFailed, st4)
                                                | Some st5 \<Rightarrow>
                                                    Done (Json 200 (JObj [(''success'', JBool True),
                                                            (''entry'', entryJson newEntry)]), st5))
                                        | _ \<Rightarrow>
                                            Done (Json 400 (JObj [(''error'', JStr ''Invalid image data'')]), st3))))
                    | _ \<Rightarrow> Done (Json 400 (JObj [(''error'', JStr ''Missing images'')]), st1))))"

subsection \<open>Static files\<close>

text \<open>\<^verbatim>\<open>serveStatic(pathname, res)\<close>, lines 67 to 108. \<open>staticTarget\<close> is the path of the
  file the function goes on to read, \<open>None\<close> where it returns \<^verbatim>\<open>false\<close> before reading;
  reading a directory throws, which the \<^verbatim>\<open>catch\<close> turns into \<^verbatim>\<open>false\<close>. The response
  carries the contents of the file; its content type is left out.\<close>

definition staticTarget :: "runtime \<Rightarrow> state \<Rightarrow> string \<Rightarrow> string option" where
  "staticTarget R st pathname =
     (let filePath = path_join [publicDir R, pathname];
          resolved = path_resolve filePath
      in if \<not> startsWith resolved (publicDir R) then None
         else (let filePath = (case disk st resolved of
                                 Some Dir \<Rightarrow> path_join [resolved, ''index.html'']
                               | _ \<Rightarrow> resolved)
               in if disk st filePath = None then None else Some filePath))"

definition serveStatic :: "runtime \<Rightarrow> state \<Rightarrow> string \<Rightarrow> response option" where
  "serveStatic R st pathname =
     (case staticTarget R st pathname of
        None \<Rightarrow> None
      | Some filePath \<Rightarrow>
          (case readFile st filePath of
             None \<Rightarrow> None
           | Some fileContents \<Rightarrow> Some (Content fileContents)))"

text \<open>The end of the request listener, lines 341 to 347.\<close>

definition staticOrNotFound :: "runtime \<Rightarrow> state \<Rightarrow> string \<Rightarrow> response" where
  "staticOrNotFound R st pathname =
     (case serveStatic R st pathname of
        Some served \<Rightarrow> served
      | None \<Rightarrow> Plain 404 ''Not Found'')"

text \<open>The pathname of a request is \<^verbatim>\<open>new URL(req.url, ...).pathname\<close>, lines 201 and
  202, and \<open>serveStatic\<close> has no other caller (line 342). Parsing a URL removes the dot
  segments from its path: in the pathname no segment is \<^verbatim>\<open>..\<close>.\<close>

definition requestPathname :: "string \<Rightarrow> bool" where
  "requestPathname pathname = (''..'' \<notin> set (split_str CHR ''/'' pathname))"

text \<open>A path lies inside a directory when it is the directory or continues it after a
  separator.\<close>

definition insideDir :: "string \<Rightarrow> string \<Rightarrow> bool" where
  "insideDir root p = (p = root \<or> startsWith p (root @ ''/''))"

text \<open>The segments that \<open>path_normalize\<close> and \<open>path_resolve\<close> keep of a path, and the
  segments that they leave as they are: not empty, not a dot segment, no separator
  inside.\<close>

definition segments :: "string \<Rightarrow> string list" where
  "segments p = resolveSegments [] (split_str CHR ''/'' p)"

definition plainSegment :: "string \<Rightarrow> bool" where
  "plainSegment s = (s \<noteq> [] \<and> s \<noteq> ''.'' \<and> s \<noteq> ''..'' \<and> CHR ''/'' \<notin> set s)"

subsection \<open>What the specification says of \<^verbatim>\<open>getLocale\<close>\<close>

text \<open>The specification's \<^verbatim>\<open>getLocale\<close>: the cached mapping if present; otherwise read
  and parse the document, cache and return it on success; on failure, if the language is
  not the fallback language, recurse once into the fallback language; if the fallback
  fails too, the empty mapping. It differs from \<open>getLocale\<close> in that a document that
  does not parse counts as a failure like one that cannot be read; it says nothing of a
  path with a NUL character, which is taken here as one more document that cannot be
  read.\<close>

function getLocaleSpec :: "runtime \<Rightarrow> string \<Rightarrow> state \<Rightarrow> (json \<times> state) run" where
  "getLocaleSpec R lang st =
     (case cachedLocale st lang of
        OffModel \<Rightarrow> OffModel
      | Done (Some v) \<Rightarrow> Done (v, st)
      | Thrown \<Rightarrow> Thrown
      | Done None \<Rightarrow>
          (case Option.bind (readFile st (localePath R lang)) (JSON_parse R) of
             None \<Rightarrow>
               if lang \<noteq> ''en'' then getLocaleSpec R ''en'' st
               else Done (JObj [], st)
           | Some obj \<Rightarrow>
               Done (obj, st\<lparr>localesCache := (localesCache st)(lang \<mapsto> obj)\<rparr>)))"
  by pat_completeness auto
termination
  by (relation "measure (\<lambda>(R, lang, st). if lang = ''en'' then 0 else 1)") auto

declare getLocaleSpec.simps [simp del]

text \<open>The document \<^verbatim>\<open>faqs.json\<close>, when it can be read, parses to the value of
  \<^verbatim>\<open>faqs\<close>.\<close>

definition faqsOnDisk :: "runtime \<Rightarrow> state \<Rightarrow> bool" where
  "faqsOnDisk R st =
     (case readFile st (faqsPath R) of
        None \<Rightarrow> True
      | Some doc \<Rightarrow> JSON_parse R doc = Some (faqsJson (faqs st)))"

text \<open>An input of the form \<^verbatim>\<open>data:image/<m>;base64,<p>\<close> that the pattern of
  \<^verbatim>\<open>saveImage\<close> accepts.\<close>

definition acceptedUri :: "string \<Rightarrow> string \<Rightarrow> string \<Rightarrow> bool" where
  "acceptedUri u m p =
     (u = ''data:image/'' @ m @ '';base64,'' @ p \<and> (m = ''png'' \<or> m = ''jpeg'')
      \<and> p \<noteq> [] \<and> list_all (\<lambda>c. \<not> isLineTerminator c) p)"

subsection \<open>A small installation\<close>

text \<open>The server installed in \<^verbatim>\<open>/srv/app\<close>, for the examples below. What the
  runtime supplies is given as tables over the texts and values of the examples, with the
  results the runtime gives for them; any other text does not parse, and no example
  writes a document other than \<^verbatim>\<open>faqs.json\<close>.\<close>

definition hoursBody :: string where
  \<open>hoursBody = ''{"question":" Opening hours? ","answer":"9 to 5"}''\<close>

definition hoursFaq :: faq where
  "hoursFaq = \<lparr>question = ''Opening hours?'', answer = ''9 to 5''\<rparr>"

definition hoursDoc :: string where
  \<open>hoursDoc = ''['' @ nl @ ''  {'' @ nl @ ''    "question": "Opening hours?",'' @ nl
     @ ''    "answer": "9 to 5"'' @ nl @ ''  }'' @ nl @ '']''\<close>

definition lifeBody :: string where
  \<open>lifeBody = ''{"question":"What is the meaning of life?"}''\<close>

definition enDoc :: string where
  \<open>enDoc = ''{"greeting":"Hello"}''\<close>

definition brokenDoc :: string where
  \<open>brokenDoc = ''{"greeting":''\<close>

definition pngUpload :: string where
  "pngUpload = ''data:image/png;base64,QUJD''"

definition gifUpload :: string where
  "gifUpload = ''data:image/gif;base64,R0lG''"

definition uploadBody :: string where
  \<open>uploadBody = ''{"before":"data:image/gif;base64,R0lG","after":"data:image/png;base64,QUJD"}''\<close>

definition uploadGifAfterBody :: string where
  \<open>uploadGifAfterBody = ''{"before":"data:image/png;base64,QUJD","after":"data:image/gif;base64,R0lG"}''\<close>

definition uploadObjectBody :: string where
  \<open>uploadObjectBody = ''{"before":"data:image/png;base64,QUJD","after":{"toString":1}}''\<close>

definition nulLangBody :: string where
  \<open>nulLangBody = ''{"question":"What is the meaning of life?","lang":"'' @ [backslash] @ ''u0000"}''\<close>

definition exampleRuntime :: runtime where
  "exampleRuntime =
     \<lparr>dirname = ''/srv/app'',
      parseOther = (\<lambda>s.
        if s = ''{}'' then Some (JObj [])
        else if s = hoursBody
        then Some (JObj [(''question'', JStr '' Opening hours? ''), (''answer'', JStr ''9 to 5'')])
        else if s = lifeBody then Some (JObj [(''question'', JStr ''What is the meaning of life?'')])
        else if s = enDoc then Some (JObj [(''greeting'', JStr ''Hello'')])
        else if s = uploadBody then Some (JObj [(''before'', JStr gifUpload), (''after'', JStr pngUpload)])
        else if s = uploadGifAfterBody
        then Some (JObj [(''before'', JStr pngUpload), (''after'', JStr gifUpload)])
        else if s = uploadObjectBody
        then Some (JObj [(''before'', JStr pngUpload), (''after'', JObj [(''toString'', JNum 1)])])
        else if s = nulLangBody
        then Some (JObj [(''question'', JStr ''What is the meaning of life?''),
                         (''lang'', JStr [char_of (0 :: nat)])])
        else None),
      stringifyOther = (\<lambda>v. []),
      base64 = (\<lambda>s. if s = ''QUJD'' then ''ABC'' else []),
      numberToString = showInt\<rparr>"

definition adminToken :: string where
  "adminToken = ''00112233445566778899aabbccddeeff''"

definition exampleDisk :: "string \<rightharpoonup> fsnode" where
  "exampleDisk =
     [''/srv/app/data/faqs.json'' \<mapsto> File ''[]'',
      ''/srv/app/data/locales/en.json'' \<mapsto> File enDoc,
      ''/srv/app/data/locales/fr.json'' \<mapsto> File brokenDoc,
      ''/srv/app/public'' \<mapsto> Dir,
      ''/srv/app/public/index.html'' \<mapsto> File ''<h1>Marisk</h1>'',
      ''/srv/app/public-old/secret.txt'' \<mapsto> File ''s3cret'',
      ''/etc/passwd'' \<mapsto> File ''root:x:0:0'']"

definition exampleState :: state where
  "exampleState =
     \<lparr>faqs = [], gallery = [], localesCache = Map.empty,
      sessions = [adminToken \<mapsto> 1700000000000],
      disk = exampleDisk, writable = (\<lambda>p. True)\<rparr>"

definition readOnlyState :: state where
  "readOnlyState = exampleState\<lparr>writable := (\<lambda>p. False)\<rparr>"

definition addHours :: request where
  "addHours =
     \<lparr>authorization = Some (''Bearer '' @ adminToken),
      contentType = Some ''application/json'', body = hoursBody\<rparr>"

definition uploadGif :: request where
  "uploadGif =
     \<lparr>authorization = Some (''Bearer '' @ adminToken),
      contentType = Some ''application/json'', body = uploadBody\<rparr>"

definition uploadGifAfter :: request where
  "uploadGifAfter =
     \<lparr>authorization = Some (''Bearer '' @ adminToken),
      contentType = Some ''application/json'', body = uploadGifAfterBody\<rparr>"

definition uploadObject :: request where
  "uploadObject =
     \<lparr>authorization = Some (''Bearer '' @ adminToken),
      contentType = Some ''application/json'', body = uploadObjectBody\<rparr>"

definition askNulLang :: request where
  "askNulLang = \<lparr>authorization = None, contentType = Some ''application/json'', body = nulLangBody\<rparr>"

definition askLife :: request where
  "askLife = \<lparr>authorization = None, contentType = Some ''application/json'', body = lifeBody\<rparr>"

definition helloFaqs :: "faq list" where
  "helloFaqs = [\<lparr>question = ''Q1'', answer = ''A1''\<rparr>, \<lparr>question = ''hello world'', answer = ''A2''\<rparr>]"

definition greetingFaqs :: "faq list" where
  "greetingFaqs = [\<lparr>question = ''hello'', answer = ''P''\<rparr>, \<lparr>question = ''Hello World'', answer = ''E''\<rparr>]"

definition hoursLongFaq :: faq where
  "hoursLongFaq = \<lparr>question = ''what are your hours'', answer = ''We are open 9-5''\<rparr>"

definition threeFaqs :: "faq list" where
  "threeFaqs = helloFaqs @ [hoursLongFaq]"

definition deadbeef :: "8 word list" where
  "deadbeef = [0xde, 0xad, 0xbe, 0xef]"

section \<open>Properties\<close>

subsection \<open>Sessions\<close>

lemma split_str_no_sep: "sep \<notin> set w \<Longrightarrow> split_str sep w = [w]"
  by (induction w) auto

lemma split_str_append: "sep \<notin> set p \<Longrightarrow> split_str sep (p @ sep # w) = p # split_str sep w"
  by (induction p) auto

lemma split_bearer:
  "CHR '' '' \<notin> set token \<Longrightarrow> split_str CHR '' '' (''Bearer '' @ token) = [''Bearer'', token]"
  using split_str_append [of "CHR '' ''" "''Bearer''" token] by (simp add: split_str_no_sep)

text \<open>The tokens that \<open>login\<close> issues are hexadecimal and so hold no space: the header
  \<^verbatim>\<open>Bearer <token>\<close> splits into exactly two parts.\<close>

lemma of_char_hexDigit: "n < 16 \<Longrightarrow> of_char (hexDigit n) = (if n < 10 then 48 + n else 87 + n)"
  by (simp add: hexDigit_def)

lemma hexDigit_not_space: "n < 16 \<Longrightarrow> hexDigit n \<noteq> CHR '' ''"
proof
  assume "n < 16" and "hexDigit n = CHR '' ''"
  then have "(if n < 10 then 48 + n else 87 + n) = (of_char (CHR '' '') :: nat)"
    using of_char_hexDigit [of n] by simp
  then show False by (simp split: if_splits)
qed

lemma toHex_no_space: "CHR '' '' \<notin> set (toHex bytes)"
proof -
  have "unat b div 16 < 16" for b :: "8 word"
    using unsigned_less [of b, where ?'a = nat] by (simp add: less_mult_imp_div_less)
  then have hi: "CHR '' '' \<noteq> hexDigit (unat b div 16)" for b :: "8 word"
    using hexDigit_not_space by metis
  have lo: "CHR '' '' \<noteq> hexDigit (unat b mod 16)" for b :: "8 word"
    using hexDigit_not_space [of "unat b mod 16"] by simp
  show ?thesis
    using hi lo by (auto simp: toHex_def)
qed

lemma login_session:
  assumes "login R req now bytes st = (Json 200 reply, st')"
  shows "sessions st' (toHex bytes) = Some now"
  using assms by (auto simp: login_def Let_def serverError_def split: if_splits)

lemma adminToken_no_space: "CHR '' '' \<notin> set adminToken"
  by (simp add: adminToken_def)

lemma isAuthenticated_bearer:
  assumes "sessions st token = Some t"
    and "CHR '' '' \<notin> set token"
    and "authorization req = Some (''Bearer '' @ token)"
  shows "isAuthenticated req now st =
           Done (if now - t \<le> 24 * 60 * 60 * 1000
                 then (True, st\<lparr>sessions := (sessions st)(token \<mapsto> now)\<rparr>)
                 else (False, st\<lparr>sessions := (sessions st)(token := None)\<rparr>))"
  using assms split_bearer [of token] by (simp add: isAuthenticated_def getProperty_def)

text \<open>The session check touches nothing but the registry.\<close>

lemma isAuthenticated_frame:
  assumes "isAuthenticated req now st = Done (b, st1)"
  shows "faqs st1 = faqs st \<and> gallery st1 = gallery st \<and> localesCache st1 = localesCache st
         \<and> disk st1 = disk st \<and> writable st1 = writable st"
  using assms
  by (auto simp: isAuthenticated_def split: option.splits list.splits property.splits if_splits)

lemma addHours_authenticated:
  "isAuthenticated addHours 1700000060000 (exampleState\<lparr>writable := w\<rparr>) =
     Done (True, exampleState\<lparr>writable := w, sessions := [adminToken \<mapsto> 1700000060000]\<rparr>)"
  using isAuthenticated_bearer [of "exampleState\<lparr>writable := w\<rparr>" adminToken 1700000000000 addHours 1700000060000]
    adminToken_no_space
  by (simp add: exampleState_def addHours_def)

text \<open>
  Claim C1. For a token of the registry, presented as \<^verbatim>\<open>Bearer <token>\<close>,
  \<open>isAuthenticated\<close> returns true exactly when at most 24 hours have passed since the
  stored timestamp, which is the time of the login or of the last successful check; it
  then stores the present time, and otherwise it returns false and deletes the session.
\<close>

theorem isAuthenticated_sliding_expiry:
  assumes "sessions st token = Some t"
    and "CHR '' '' \<notin> set token"
    and "authorization req = Some (''Bearer '' @ token)"
  shows "isAuthenticated req now st =
           Done (if now - t \<le> 24 * 60 * 60 * 1000
                 then (True, st\<lparr>sessions := (sessions st)(token \<mapsto> now)\<rparr>)
                 else (False, st\<lparr>sessions := (sessions st)(token := None)\<rparr>))"
  using assms by (rule isAuthenticated_bearer)

theorem isAuthenticated_sliding_expiry_witness:
  "isAuthenticated addHours 1700086400000 exampleState =
     Done (True, exampleState\<lparr>sessions := [adminToken \<mapsto> 1700086400000]\<rparr>)
   \<and> isAuthenticated addHours 1700086400001 exampleState =
     Done (False, exampleState\<lparr>sessions := Map.empty\<rparr>)"
  using isAuthenticated_sliding_expiry [of exampleState adminToken 1700000000000 addHours 1700086400000]
    isAuthenticated_sliding_expiry [of exampleState adminToken 1700000000000 addHours 1700086400001]
    adminToken_no_space
  by (simp add: exampleState_def addHours_def)


subsection \<open>Static files\<close>

text \<open>Splitting and joining at the separator.\<close>

lemma split_str_not_Nil: "split_str sep s \<noteq> []"
  by (induction s) (auto split: list.splits)

lemma split_str_app: "split_str sep (a @ sep # b) = split_str sep a @ split_str sep b"
proof (induction a)
  case Nil
  then show ?case by simp
next
  case (Cons c a)
  obtain w ws where "split_str sep a = w # ws"
    using split_str_not_Nil [of sep a] by (cases "split_str sep a") auto
  then show ?case using Cons by simp
qed

lemma split_str_single: "sep \<notin> set w \<Longrightarrow> split_str sep w = [w]"
  by (induction w) auto

lemma split_str_pieces: "s \<in> set (split_str sep p) \<Longrightarrow> sep \<notin> set s"
proof (induction p arbitrary: s)
  case Nil
  then show ?case by simp
next
  case (Cons c p)
  obtain w ws where w: "split_str sep p = w # ws"
    using split_str_not_Nil [of sep p] by (cases "split_str sep p") auto
  show ?case
  proof (cases "c = sep")
    case True
    then show ?thesis using Cons by auto
  next
    case False
    then have "s = c # w \<or> s \<in> set ws" using Cons.prems w by simp
    then show ?thesis using Cons.IH w False by auto
  qed
qed

lemma split_str_join:
  assumes "ws \<noteq> []" and "\<forall>s \<in> set ws. sep \<notin> set s"
  shows "split_str sep (join [sep] ws) = ws"
  using assms
proof (induction ws rule: induct_list012)
  case 1
  then show ?case by simp
next
  case (2 w)
  then show ?case by (simp add: split_str_single)
next
  case (3 w v ws)
  have "split_str sep (join [sep] (w # v # ws)) = split_str sep w @ split_str sep (join [sep] (v # ws))"
    using split_str_app [of sep w "join [sep] (v # ws)"] by simp
  then show ?case using 3 by (simp add: split_str_single)
qed

lemma join_append:
  assumes "xs \<noteq> []" and "ys \<noteq> []"
  shows "join sep (xs @ ys) = join sep xs @ sep @ join sep ys"
  using assms
proof (induction xs rule: induct_list012)
  case 1
  then show ?case by simp
next
  case (2 x)
  then show ?case by (cases ys) simp_all
next
  case (3 x y zs)
  then show ?case by simp
qed

text \<open>Resolving segments: without \<^verbatim>\<open>..\<close> nothing that was resolved is taken back.\<close>

lemma resolveSegments_append:
  "resolveSegments acc (xs @ ys) = resolveSegments (resolveSegments acc xs) ys"
  by (induction xs arbitrary: acc) simp_all

lemma resolveSegments_plain: "list_all plainSegment xs \<Longrightarrow> resolveSegments acc xs = acc @ xs"
  by (induction xs arbitrary: acc) (simp_all add: plainSegment_def)

lemma resolveSegments_no_parent:
  "''..'' \<notin> set xs \<Longrightarrow> resolveSegments acc xs = acc @ filter (\<lambda>s. s \<noteq> [] \<and> s \<noteq> ''.'') xs"
  by (induction xs arbitrary: acc) auto

lemma butlast_plain: "list_all plainSegment acc \<Longrightarrow> list_all plainSegment (butlast acc)"
  by (induction acc) simp_all

lemma resolveSegments_gives_plain:
  assumes "list_all plainSegment acc" and "\<forall>s \<in> set xs. CHR ''/'' \<notin> set s"
  shows "list_all plainSegment (resolveSegments acc xs)"
  using assms
proof (induction xs arbitrary: acc)
  case Nil
  then show ?case by simp
next
  case (Cons x xs)
  have rest: "\<forall>s \<in> set xs. CHR ''/'' \<notin> set s"
    using Cons.prems(2) by simp
  consider "x = [] \<or> x = ''.''" | "x = ''..''" | "x \<noteq> []" "x \<noteq> ''.''" "x \<noteq> ''..''"
    by blast
  then show ?case
  proof cases
    case 1
    then show ?thesis using Cons.IH [OF Cons.prems(1) rest] by auto
  next
    case 2
    then show ?thesis using Cons.IH [OF butlast_plain [OF Cons.prems(1)] rest] by simp
  next
    case 3
    have "plainSegment x"
      using 3 Cons.prems(2) by (simp add: plainSegment_def)
    then have "list_all plainSegment (acc @ [x])"
      using Cons.prems(1) by simp
    then show ?thesis using 3 Cons.IH [OF _ rest] by simp
  qed
qed

lemma segments_plain: "list_all plainSegment (segments p)"
  unfolding segments_def
  by (rule resolveSegments_gives_plain) (auto dest: split_str_pieces)

lemma segments_app: "segments (a @ CHR ''/'' # b) = resolveSegments (segments a) (split_str CHR ''/'' b)"
  by (simp add: segments_def split_str_app resolveSegments_append)

lemma plain_no_sep: "list_all plainSegment S \<Longrightarrow> \<forall>s \<in> set S. CHR ''/'' \<notin> set s"
  by (simp add: list_all_iff plainSegment_def)

text \<open>A path written from plain segments has these segments, with or without a
  separator at its end.\<close>

lemma segments_written:
  assumes "list_all plainSegment S"
  shows "segments (CHR ''/'' # join ''/'' S) = S"
    and "segments (CHR ''/'' # join ''/'' S @ ''/'') = S"
proof -
  show "segments (CHR ''/'' # join ''/'' S) = S"
  proof (cases "S = []")
    case True
    then show ?thesis by (simp add: segments_def)
  next
    case False
    then have "split_str CHR ''/'' (join ''/'' S) = S"
      using split_str_join [of S "CHR ''/''"] plain_no_sep [OF assms] by simp
    then show ?thesis
      using assms by (simp add: segments_def resolveSegments_plain)
  qed
  show "segments (CHR ''/'' # join ''/'' S @ ''/'') = S"
  proof (cases "S = []")
    case True
    then show ?thesis by (simp add: segments_def)
  next
    case False
    then have "split_str CHR ''/'' (join ''/'' S) = S"
      using split_str_join [of S "CHR ''/''"] plain_no_sep [OF assms] by simp
    then have "split_str CHR ''/'' (join ''/'' S @ ''/'') = S @ [[]]"
      using split_str_app [of "CHR ''/''" "join ''/'' S" "[]"] by simp
    then show ?thesis
      using assms by (simp add: segments_def resolveSegments_plain resolveSegments_append)
  qed
qed

lemma segments_normalize: "segments (path_normalize p) = segments p"
  using segments_written [OF segments_plain [of p]]
  by (simp add: path_normalize_def Let_def segments_def)

lemma path_resolve_segments: "path_resolve p = CHR ''/'' # join ''/'' (segments p)"
  by (simp add: path_resolve_def segments_def)

lemma endsWith_char: "endsWith s [c] \<longleftrightarrow> s \<noteq> [] \<and> last s = c"
proof (cases s rule: rev_cases)
  case Nil
  then show ?thesis by (simp add: endsWith_def)
next
  case (snoc ys y)
  then show ?thesis by (simp add: endsWith_def)
qed

lemma path_normalize_no_slash:
  assumes "p \<noteq> []" and "last p \<noteq> CHR ''/''"
  shows "path_normalize p = CHR ''/'' # join ''/'' (segments p)"
  using assms by (simp add: path_normalize_def Let_def segments_def endsWith_char)

text \<open>\<^verbatim>\<open>path.join(a, b)\<close> continues the path \<open>a\<close> with the segments of \<open>b\<close>.\<close>

lemma segments_join2:
  assumes "a \<noteq> []"
  shows "segments (join ''/'' (filter (\<lambda>s. s \<noteq> []) [a, b])) = resolveSegments (segments a) (split_str CHR ''/'' b)"
proof (cases "b = []")
  case True
  then show ?thesis using assms by simp
next
  case False
  then show ?thesis using assms segments_app [of a b] by simp
qed

lemma segments_path_join2:
  assumes "a \<noteq> []"
  shows "segments (path_join [a, b]) = resolveSegments (segments a) (split_str CHR ''/'' b)"
  using segments_join2 [OF assms] by (simp add: path_join_def segments_normalize del: join.simps filter.simps)

text \<open>The static root is \<^verbatim>\<open>__dirname\<close> continued with \<^verbatim>\<open>public\<close>.\<close>

lemma publicDir_segments: "publicDir R = CHR ''/'' # join ''/'' (segments (dirname R) @ [''public''])"
proof -
  let ?p = "join ''/'' (filter (\<lambda>s. s \<noteq> []) [dirname R, ''public''])"
  have "?p \<noteq> []" and "last ?p \<noteq> CHR ''/''"
    by simp_all
  then have "publicDir R = CHR ''/'' # join ''/'' (segments ?p)"
    unfolding publicDir_def path_join_def by (rule path_normalize_no_slash)
  moreover have "segments ?p = segments (dirname R) @ [''public'']"
  proof (cases "dirname R = []")
    case True
    then show ?thesis by (simp add: segments_def)
  next
    case False
    then show ?thesis
      using segments_join2 [of "dirname R" "''public''"] by simp
  qed
  ultimately show ?thesis by simp
qed

lemma inside_written:
  assumes "P \<noteq> []"
  shows "insideDir (CHR ''/'' # join ''/'' P) (CHR ''/'' # join ''/'' (P @ G))"
proof (cases "G = []")
  case True
  then show ?thesis by (simp add: insideDir_def)
next
  case False
  then have "join ''/'' (P @ G) = join ''/'' P @ ''/'' @ join ''/'' G"
    using assms by (rule join_append [rotated])
  then show ?thesis by (simp add: insideDir_def startsWith_def)
qed

text \<open>For a pathname with no segment \<^verbatim>\<open>..\<close>, what \<open>serveStatic\<close> resolves and what it
  goes on to read are the root continued with segments of the pathname.\<close>

lemma resolved_request:
  assumes "requestPathname pathname"
  shows "path_resolve (path_join [publicDir R, pathname]) =
           CHR ''/'' # join ''/'' ((segments (dirname R) @ [''public''])
             @ filter (\<lambda>s. s \<noteq> [] \<and> s \<noteq> ''.'') (split_str CHR ''/'' pathname))"
proof -
  let ?P = "segments (dirname R) @ [''public'']"
  have plain: "list_all plainSegment ?P"
    using segments_plain [of "dirname R"] by (simp add: plainSegment_def)
  have "segments (publicDir R) = ?P"
    using segments_written(1) [OF plain] by (simp add: publicDir_segments)
  moreover have "publicDir R \<noteq> []"
    by (simp add: publicDir_segments)
  ultimately have "segments (path_join [publicDir R, pathname]) = resolveSegments ?P (split_str CHR ''/'' pathname)"
    using segments_path_join2 [of "publicDir R" pathname] by simp
  then show ?thesis
    using assms by (simp add: path_resolve_segments resolveSegments_no_parent requestPathname_def)
qed

lemma index_of_written:
  assumes "list_all plainSegment S"
  shows "path_join [CHR ''/'' # join ''/'' S, ''index.html''] = CHR ''/'' # join ''/'' (S @ [''index.html''])"
proof -
  let ?a = "CHR ''/'' # join ''/'' S"
  let ?p = "join ''/'' (filter (\<lambda>s. s \<noteq> []) [?a, ''index.html''])"
  have "?p \<noteq> []" and "last ?p \<noteq> CHR ''/''"
    by simp_all
  then have "path_join [?a, ''index.html''] = CHR ''/'' # join ''/'' (segments ?p)"
    unfolding path_join_def by (rule path_normalize_no_slash)
  moreover have "segments ?p = S @ [''index.html'']"
    using segments_join2 [of ?a "''index.html''"] segments_written(1) [OF assms] by simp
  ultimately show ?thesis by simp
qed

lemma staticTarget_inside:
  assumes "requestPathname pathname" and "staticTarget R st pathname = Some p"
  shows "insideDir (publicDir R) p"
proof -
  let ?P = "segments (dirname R) @ [''public'']"
  let ?F = "filter (\<lambda>s. s \<noteq> [] \<and> s \<noteq> ''.'') (split_str CHR ''/'' pathname)"
  let ?resolved = "CHR ''/'' # join ''/'' (?P @ ?F)"
  have r: "path_resolve (path_join [publicDir R, pathname]) = ?resolved"
    by (rule resolved_request [OF assms(1)])
  have plain: "list_all plainSegment (?P @ ?F)"
    using segments_plain [of "dirname R"] split_str_pieces [of _ "CHR ''/''" pathname] assms(1)
    by (auto simp: plainSegment_def list_all_iff requestPathname_def)
  have i: "path_join [?resolved, ''index.html''] = CHR ''/'' # join ''/'' (?P @ (?F @ [''index.html'']))"
    using index_of_written [OF plain] by simp
  have "p = ?resolved \<or> p = path_join [?resolved, ''index.html'']"
    using assms(2) unfolding staticTarget_def Let_def r
    by (auto split: if_splits option.splits fsnode.splits)
  then show ?thesis
    using inside_written [of ?P ?F] inside_written [of ?P "?F @ [''index.html'']"] i
    by (auto simp: publicDir_segments)
qed

lemma serveStatic_cases:
  "serveStatic R st pathname = None
   \<or> (\<exists>p c. staticTarget R st pathname = Some p \<and> readFile st p = Some c
        \<and> serveStatic R st pathname = Some (Content c))"
  by (auto simp: serveStatic_def split: option.splits)

text \<open>For any pathname at all, what passes the test of line 72 begins with the root, as
  a string, and so does the path of the default document of a directory.\<close>

lemma startsWith_prefix: "startsWith s p \<longleftrightarrow> (\<exists>v. s = p @ v)"
proof
  assume "startsWith s p"
  then have "s = p @ drop (length p) s"
    by (metis append_take_drop_id startsWith_def)
  then show "\<exists>v. s = p @ v" ..
next
  assume "\<exists>v. s = p @ v"
  then show "startsWith s p" by (auto simp: startsWith_def)
qed

lemma startsWith_longer: "startsWith s p \<Longrightarrow> startsWith (s @ t) p"
  by (auto simp: startsWith_prefix)

lemma publicDir_not_root: "\<not> startsWith ''/'' (publicDir R)"
proof -
  have "join ''/'' (segments (dirname R) @ [''public'']) \<noteq> []"
  proof (cases "segments (dirname R) = []")
    case True
    then show ?thesis by simp
  next
    case False
    then show ?thesis
      using join_append [of "segments (dirname R)" "[''public'']" "''/''"] by simp
  qed
  then show ?thesis
    by (auto simp: publicDir_segments startsWith_prefix)
qed

lemma staticTarget_prefix:
  assumes "staticTarget R st pathname = Some p"
  shows "startsWith p (publicDir R)"
proof -
  let ?S = "segments (path_join [publicDir R, pathname])"
  let ?resolved = "CHR ''/'' # join ''/'' ?S"
  have r: "path_resolve (path_join [publicDir R, pathname]) = ?resolved"
    by (rule path_resolve_segments)
  have guard: "startsWith ?resolved (publicDir R)"
    using assms unfolding staticTarget_def Let_def r by (simp split: if_splits)
  then have "?S \<noteq> []"
    using publicDir_not_root [of R] by auto
  then have "join ''/'' (?S @ [''index.html'']) = join ''/'' ?S @ ''/'' @ join ''/'' [''index.html'']"
    by (intro join_append) simp_all
  then have "path_join [?resolved, ''index.html''] = ?resolved @ ''/index.html''"
    using index_of_written [OF segments_plain, of "path_join [publicDir R, pathname]"] by simp
  then have i: "startsWith (path_join [?resolved, ''index.html'']) (publicDir R)"
    using guard by (simp add: startsWith_longer del: append.simps)
  have "p = ?resolved \<or> p = path_join [?resolved, ''index.html'']"
    using assms unfolding staticTarget_def Let_def r
    by (auto split: if_splits option.splits fsnode.splits)
  then show ?thesis
    using guard i by auto
qed

lemma serveStatic_refused:
  assumes "\<not> startsWith (path_resolve (path_join [publicDir R, pathname])) (publicDir R)"
  shows "serveStatic R st pathname = None \<and> staticOrNotFound R st pathname = Plain 404 ''Not Found''"
  using assms by (simp add: staticOrNotFound_def serveStatic_def staticTarget_def Let_def)

text \<open>The test of line 72 compares strings, and beginning with the root is less than
  lying inside it: called on its own with a pathname that holds \<^verbatim>\<open>..\<close> and resolves to a
  sibling directory whose name begins with the name of the root, \<open>serveStatic\<close> serves the
  file. No request gets there: the pathname the listener passes has no such segment, and
  for the pathname that the same request really gives the answer is 404.\<close>

lemma serveStatic_direct_call:
  "serveStatic exampleRuntime exampleState ''/../public-old/secret.txt'' = Some (Content ''s3cret'')"
  "requestPathname ''/../public-old/secret.txt'' = False"
  by code_simp+

lemma static_examples:
  "publicDir exampleRuntime = ''/srv/app/public''"
  "requestPathname ''/public-old/secret.txt''"
  "requestPathname ''/etc/passwd''"
  "requestPathname ''/''"
  "staticOrNotFound exampleRuntime exampleState ''/public-old/secret.txt'' = Plain 404 ''Not Found''"
  "staticOrNotFound exampleRuntime exampleState ''/etc/passwd'' = Plain 404 ''Not Found''"
  "staticOrNotFound exampleRuntime exampleState ''/'' = Content ''<h1>Marisk</h1>''"
  "staticTarget exampleRuntime exampleState ''/'' = Some ''/srv/app/public/index.html''"
  "readFile exampleState ''/srv/app/public/index.html'' = Some ''<h1>Marisk</h1>''"
  "path_resolve (path_join [publicDir exampleRuntime, ''/../../../etc/passwd'']) = ''/etc/passwd''"
  "\<not> startsWith ''/etc/passwd'' ''/srv/app/public''"
  "readFile exampleState ''/etc/passwd'' = Some ''root:x:0:0''"
  "readFile exampleState ''/srv/app/public-old/secret.txt'' = Some ''s3cret''"
  by code_simp+

text \<open>
  Claim C2. For the pathname of a request, the file that the static lookup goes on to
  read lies inside the static root, whatever the pathname and the disk are; so what the
  end of the listener answers is either the contents of a file inside the root or 404.
  For any pathname at all, a file that is read has a path that begins with the root, and a
  pathname that resolves to a path that does not is refused: \<open>serveStatic\<close> returns
  \<^verbatim>\<open>false\<close> and the answer is 404.
\<close>

theorem serveStatic_stays_inside_root:
  "(requestPathname pathname \<longrightarrow>
      (\<forall>p. staticTarget R st pathname = Some p \<longrightarrow> insideDir (publicDir R) p)
      \<and> (staticOrNotFound R st pathname = Plain 404 ''Not Found''
         \<or> (\<exists>p c. insideDir (publicDir R) p \<and> readFile st p = Some c
               \<and> serveStatic R st pathname = Some (Content c)
               \<and> staticOrNotFound R st pathname = Content c)))
   \<and> (\<forall>p. staticTarget R st anyPath = Some p \<longrightarrow> startsWith p (publicDir R))
   \<and> (\<not> startsWith (path_resolve (path_join [publicDir R, anyPath])) (publicDir R)
        \<longrightarrow> serveStatic R st anyPath = None \<and> staticOrNotFound R st anyPath = Plain 404 ''Not Found'')"
proof (intro conjI allI impI)
  fix p
  assume "requestPathname pathname" and "staticTarget R st pathname = Some p"
  then show "insideDir (publicDir R) p"
    by (rule staticTarget_inside)
next
  assume req: "requestPathname pathname"
  from serveStatic_cases [of R st pathname]
  show "staticOrNotFound R st pathname = Plain 404 ''Not Found''
          \<or> (\<exists>p c. insideDir (publicDir R) p \<and> readFile st p = Some c
                \<and> serveStatic R st pathname = Some (Content c)
                \<and> staticOrNotFound R st pathname = Content c)"
  proof
    assume "serveStatic R st pathname = None"
    then show ?thesis by (simp add: staticOrNotFound_def)
  next
    assume "\<exists>p c. staticTarget R st pathname = Some p \<and> readFile st p = Some c
        \<and> serveStatic R st pathname = Some (Content c)"
    then obtain p c where "staticTarget R st pathname = Some p" "readFile st p = Some c"
      "serveStatic R st pathname = Some (Content c)" by blast
    moreover from this have "insideDir (publicDir R) p"
      using staticTarget_inside [OF req] by blast
    ultimately show ?thesis by (auto simp: staticOrNotFound_def)
  qed
next
  fix p
  assume "staticTarget R st anyPath = Some p"
  then show "startsWith p (publicDir R)"
    by (rule staticTarget_prefix)
next
  assume "\<not> startsWith (path_resolve (path_join [publicDir R, anyPath])) (publicDir R)"
  then show "serveStatic R st anyPath = None" and "staticOrNotFound R st anyPath = Plain 404 ''Not Found''"
    using serveStatic_refused by blast+
qed

theorem serveStatic_stays_inside_root_witness:
  "requestPathname ''/''
   \<and> staticTarget exampleRuntime exampleState ''/'' = Some ''/srv/app/public/index.html''
   \<and> insideDir (publicDir exampleRuntime) ''/srv/app/public/index.html''
   \<and> staticOrNotFound exampleRuntime exampleState ''/'' = Content ''<h1>Marisk</h1>''
   \<and> requestPathname ''/public-old/secret.txt''
   \<and> readFile exampleState ''/srv/app/public-old/secret.txt'' = Some ''s3cret''
   \<and> staticOrNotFound exampleRuntime exampleState ''/public-old/secret.txt'' = Plain 404 ''Not Found''
   \<and> readFile exampleState ''/etc/passwd'' = Some ''root:x:0:0''
   \<and> serveStatic exampleRuntime exampleState ''/../../../etc/passwd'' = None
   \<and> staticOrNotFound exampleRuntime exampleState ''/../../../etc/passwd'' = Plain 404 ''Not Found''"
  using serveStatic_stays_inside_root [of "''/''" exampleRuntime exampleState "''/../../../etc/passwd''"]
    serveStatic_stays_inside_root [of "''/public-old/secret.txt''" exampleRuntime exampleState "''/''"]
    static_examples
  by simp

subsection \<open>The FAQ document\<close>

text \<open>Parsing inverts serialization on the FAQ documents: \<open>unquote\<close> reads back what
  \<open>quoteJSON\<close> writes, entry by entry.\<close>

lemma faqsOf_faqsJson: "faqsOf (faqsJson fs) = Some fs"
  by (induction fs) (simp_all add: faqsJson_def)

lemma of_char_dquote: "of_char dquote = (34 :: nat)"
  by (simp add: dquote_def)

lemma of_char_backslash: "of_char backslash = (92 :: nat)"
  by (simp add: backslash_def)

lemma char_neq: "(of_char c :: nat) \<noteq> of_char d \<Longrightarrow> c \<noteq> d"
  by auto

lemma unhex_hexDigit: "n < 16 \<Longrightarrow> unhex (hexDigit n) = Some n"
  by (auto simp: unhex_def hexDigit_def Let_def)

lemma unquote_dquote: "unquote (dquote # rest) = Some ([], rest)"
  by simp

lemma unquote_escapeChar: "unquote (escapeChar c @ r) = consChar c (unquote r)"
proof -
  let ?n = "of_char c :: nat"
  have bd: "backslash \<noteq> dquote"
    by (rule char_neq) (simp add: of_char_dquote of_char_backslash)
  have c: "char_of ?n = c"
    by simp
  consider (q) "c = dquote" | (b) "c = backslash"
    | (e) "c \<noteq> dquote" "c \<noteq> backslash" "?n \<in> {8, 9, 10, 12, 13}"
    | (u) "c \<noteq> dquote" "c \<noteq> backslash" "?n \<notin> {8, 9, 10, 12, 13}" "?n < 32"
    | (p) "c \<noteq> dquote" "c \<noteq> backslash" "\<not> ?n < 32"
    by blast
  then show ?thesis
  proof cases
    case q
    have "dquote \<noteq> CHR ''u''"
      by (rule char_neq) (simp add: of_char_dquote)
    then show ?thesis
      using q bd by (simp add: escapeChar_def unescape_def)
  next
    case b
    have "backslash \<noteq> CHR ''u''"
      by (rule char_neq) (simp add: of_char_backslash)
    then show ?thesis
      using b bd by (simp add: escapeChar_def unescape_def)
  next
    case e
    have l: "CHR ''b'' \<noteq> dquote" "CHR ''t'' \<noteq> dquote" "CHR ''n'' \<noteq> dquote" "CHR ''f'' \<noteq> dquote"
      "CHR ''r'' \<noteq> dquote" "CHR ''b'' \<noteq> backslash" "CHR ''t'' \<noteq> backslash" "CHR ''n'' \<noteq> backslash"
      "CHR ''f'' \<noteq> backslash" "CHR ''r'' \<noteq> backslash"
      by (rule char_neq, simp add: of_char_dquote of_char_backslash)+
    from e(3) consider "?n = 8" | "?n = 9" | "?n = 10" | "?n = 12" | "?n = 13"
      by auto
    then show ?thesis
    proof cases
      case 1
      then have "c = char_of (8 :: nat)" using c by simp
      then show ?thesis
        using e(1,2) bd l 1 by (simp add: escapeChar_def unescape_def Let_def)
    next
      case 2
      then have "c = char_of (9 :: nat)" using c by simp
      then show ?thesis
        using e(1,2) bd l 2 by (simp add: escapeChar_def unescape_def Let_def)
    next
      case 3
      then have "c = char_of (10 :: nat)" using c by simp
      then show ?thesis
        using e(1,2) bd l 3 by (simp add: escapeChar_def unescape_def Let_def)
    next
      case 4
      then have "c = char_of (12 :: nat)" using c by simp
      then show ?thesis
        using e(1,2) bd l 4 by (simp add: escapeChar_def unescape_def Let_def)
    next
      case 5
      then have "c = char_of (13 :: nat)" using c by simp
      then show ?thesis
        using e(1,2) bd l 5 by (simp add: escapeChar_def unescape_def Let_def)
    qed
  next
    case u
    have h: "unhex (hexDigit (?n div 16)) = Some (?n div 16)" "unhex (hexDigit (?n mod 16)) = Some (?n mod 16)"
      using u(4) by (simp_all add: unhex_hexDigit)
    have "char_of (16 * (?n div 16) + ?n mod 16) = c"
      using c by simp
    then show ?thesis
      using u bd h by (simp add: escapeChar_def Let_def)
  next
    case p
    then show ?thesis
      by (simp add: escapeChar_def Let_def)
  qed
qed

lemma unquote_escaped: "unquote (concat (map escapeChar s) @ dquote # rest) = Some (s, rest)"
  by (induction s) (simp_all add: unquote_dquote unquote_escapeChar consChar_def del: unquote.simps)

lemma stripPrefix_append: "stripPrefix p (p @ r) = Some r"
  by (simp add: stripPrefix_def startsWith_def)

lemma stringifyFaq_parts:
  "stringifyFaq f @ rest =
     (''  {'' @ nl @ ''    '' @ quoteJSON ''question'' @ '': '' @ [dquote])
     @ concat (map escapeChar (question f)) @ dquote
     # ('','' @ nl @ ''    '' @ quoteJSON ''answer'' @ '': '' @ [dquote])
     @ concat (map escapeChar (answer f)) @ dquote
     # (nl @ ''  }'') @ rest"
  by (simp add: stringifyFaq_def quoteJSON_def)

lemma parseFaq_stringifyFaq: "parseFaq (stringifyFaq f @ rest) = Some (f, rest)"
  unfolding stringifyFaq_parts parseFaq_def
  by (simp only: stripPrefix_append unquote_escaped option.case prod.case) simp

lemma length_join_stringifyFaq: "length fs \<le> length (join sep (map stringifyFaq fs))"
proof (induction fs rule: induct_list012)
  case 1
  then show ?case by simp
next
  case (2 f)
  then show ?case by (simp add: stringifyFaq_def)
next
  case (3 f g gs)
  have "1 \<le> length (stringifyFaq f)"
    by (simp add: stringifyFaq_def)
  then show ?case using 3 by simp
qed

lemma parseEntries_stringify:
  assumes "fs \<noteq> []" and "length fs \<le> n"
  shows "parseEntries n (join ('','' @ nl) (map stringifyFaq fs) @ nl @ '']'') = Some fs"
  using assms
proof (induction fs arbitrary: n rule: induct_list012)
  case 1
  then show ?case by simp
next
  case (2 f)
  then obtain m where "n = Suc m" by (cases n) auto
  then show ?case
    by (simp add: parseFaq_stringifyFaq)
next
  case (3 f g gs)
  then obtain m where n: "n = Suc m" and m: "length (g # gs) \<le> m" by (cases n) auto
  have r: "join ('','' @ nl) (map stringifyFaq (f # g # gs)) @ nl @ '']''
      = stringifyFaq f @ (('','' @ nl) @ join ('','' @ nl) (map stringifyFaq (g # gs)) @ nl @ '']'')"
    by simp
  have ne: "('','' @ nl) @ join ('','' @ nl) (map stringifyFaq (g # gs)) @ nl @ '']'' \<noteq> nl @ '']''"
    by (simp add: nl_def)
  have "parseEntries m (join ('','' @ nl) (map stringifyFaq (g # gs)) @ nl @ '']'') = Some (g # gs)"
    using 3(2) m by simp
  then show ?case
    unfolding n r parseEntries.simps parseFaq_stringifyFaq
    using ne by (simp only: stripPrefix_append option.case prod.case if_False)
qed

lemma parseFaqs_stringifyFaqs: "parseFaqs (stringifyFaqs fs) = Some fs"
proof (cases "fs = []")
  case True
  then show ?thesis by (simp add: parseFaqs_def stringifyFaqs_def)
next
  case False
  have s: "stringifyFaqs fs = (''['' @ nl) @ join ('','' @ nl) (map stringifyFaq fs) @ nl @ '']''"
    using False by (simp add: stringifyFaqs_def)
  have ne: "(''['' @ nl) @ join ('','' @ nl) (map stringifyFaq fs) @ nl @ '']'' \<noteq> ''[]''"
    by (simp add: nl_def)
  have "length fs \<le> length (join ('','' @ nl) (map stringifyFaq fs) @ nl @ '']'')"
    using length_join_stringifyFaq [of fs "'','' @ nl"] by simp
  then have "parseEntries (length (join ('','' @ nl) (map stringifyFaq fs) @ nl @ '']''))
      (join ('','' @ nl) (map stringifyFaq fs) @ nl @ '']'') = Some fs"
    using False by (rule parseEntries_stringify [rotated])
  then show ?thesis
    unfolding s parseFaqs_def using ne by (simp only: stripPrefix_append option.case if_False)
qed

lemma JSON_roundtrip: "JSON_parse R (JSON_stringify R (faqsJson fs)) = Some (faqsJson fs)"
  by (simp add: JSON_parse_def JSON_stringify_def faqsOf_faqsJson parseFaqs_stringifyFaqs)

lemma hoursDoc_stringify: "JSON_stringify R (faqsJson [hoursFaq]) = hoursDoc"
  by (simp add: JSON_stringify_def faqsOf_faqsJson stringifyFaqs_def stringifyFaq_def quoteJSON_def
      escapeChar_def hoursFaq_def hoursDoc_def dquote_def backslash_def Let_def char_of_def bit_0)


subsection \<open>Adding a FAQ\<close>

lemma field_Some_not_null: "field v k = Some x \<Longrightarrow> v \<noteq> JNull"
  by (cases v) auto

lemma addFaq_valid:
  assumes auth: "isAuthenticated req now st = Done (True, st1)"
    and q: "field (parseBody R req) ''question'' = Some (JStr q)"
    and a: "field (parseBody R req) ''answer'' = Some (JStr a)"
    and ne: "trim q \<noteq> []" "trim a \<noteq> []"
  shows "addFaq R req now st =
           Done (Json 200 (JObj [(''success'', JBool True)]),
                 if writable st (faqsPath R)
                 then st1\<lparr>faqs := faqs st @ [\<lparr>question = trim q, answer = trim a\<rparr>],
                          disk := (disk st)(faqsPath R \<mapsto>
                            File (JSON_stringify R (faqsJson (faqs st @ [\<lparr>question = trim q, answer = trim a\<rparr>]))))\<rparr>
                 else st1\<lparr>faqs := faqs st @ [\<lparr>question = trim q, answer = trim a\<rparr>]\<rparr>)"
  using isAuthenticated_frame [OF auth] field_Some_not_null [OF q] q a ne
  by (simp add: addFaq_def auth Let_def writeFileSync_def)

lemma addHours_body:
  "parseBody exampleRuntime addHours = JObj [(''question'', JStr '' Opening hours? ''), (''answer'', JStr ''9 to 5'')]"
  by code_simp

lemma addHours_question: "field (parseBody exampleRuntime addHours) ''question'' = Some (JStr '' Opening hours? '')"
  by (simp add: addHours_body)

lemma addHours_answer: "field (parseBody exampleRuntime addHours) ''answer'' = Some (JStr ''9 to 5'')"
  by (simp add: addHours_body)

lemma hours_trimmed: "trim '' Opening hours? '' = ''Opening hours?''" "trim ''9 to 5'' = ''9 to 5''"
  by code_simp+

lemma faqsPath_example: "faqsPath exampleRuntime = ''/srv/app/data/faqs.json''"
  by code_simp

lemma parse_empty_array: "JSON_parse R ''[]'' = Some (JArr [])"
  by (simp add: JSON_parse_def parseFaqs_def faqsJson_def)

lemma faqs_json_on_disk: "readFile (exampleState\<lparr>writable := w\<rparr>) ''/srv/app/data/faqs.json'' = Some ''[]''"
  by (simp add: exampleState_def exampleDisk_def readFile_def)

text \<open>
  Claim C3, as amended. For an authenticated add-FAQ request whose question and answer
  are strings that are not empty after trimming, the trimmed entry is appended at the end
  of \<^verbatim>\<open>faqs\<close>, so that \<^verbatim>\<open>GET /api/faqs\<close> lists it last, and the answer is 200; when
  the write of \<^verbatim>\<open>faqs.json\<close> goes through, the document is the serialization of the
  whole new sequence, and it parses back to that sequence.
\<close>

theorem addFaq_appends_and_persists:
  assumes "isAuthenticated req now st = Done (True, st1)"
    and "field (parseBody R req) ''question'' = Some (JStr q)"
    and "field (parseBody R req) ''answer'' = Some (JStr a)"
    and "trim q \<noteq> []" and "trim a \<noteq> []"
  shows "\<exists>st'. addFaq R req now st = Done (Json 200 (JObj [(''success'', JBool True)]), st')
           \<and> faqs st' = faqs st @ [\<lparr>question = trim q, answer = trim a\<rparr>]
           \<and> listFaqs st' = Json 200 (faqsJson (faqs st @ [\<lparr>question = trim q, answer = trim a\<rparr>]))
           \<and> (writable st (faqsPath R) \<longrightarrow>
                readFile st' (faqsPath R) = Some (JSON_stringify R (faqsJson (faqs st')))
                \<and> JSON_parse R (JSON_stringify R (faqsJson (faqs st'))) = Some (faqsJson (faqs st'))
                \<and> faqsOnDisk R st')"
  using addFaq_valid [OF assms]
  by (simp add: listFaqs_def readFile_def faqsOnDisk_def JSON_roundtrip)

theorem addFaq_appends_and_persists_witness:
  "\<exists>st'. addFaq exampleRuntime addHours 1700000060000 exampleState
            = Done (Json 200 (JObj [(''success'', JBool True)]), st')
         \<and> faqs st' = [hoursFaq]
         \<and> listFaqs st' = Json 200 (faqsJson [hoursFaq])
         \<and> readFile st' (faqsPath exampleRuntime) = Some hoursDoc
         \<and> JSON_parse exampleRuntime hoursDoc = Some (faqsJson [hoursFaq])
         \<and> faqsOnDisk exampleRuntime st'"
proof -
  have auth: "isAuthenticated addHours 1700000060000 exampleState =
      Done (True, exampleState\<lparr>sessions := [adminToken \<mapsto> 1700000060000]\<rparr>)"
    using addHours_authenticated [of "\<lambda>p. True"] by (simp add: exampleState_def)
  have ne: "trim '' Opening hours? '' \<noteq> []" "trim ''9 to 5'' \<noteq> []"
    by (simp_all add: hours_trimmed)
  have w: "writable exampleState (faqsPath exampleRuntime)"
    by (simp add: exampleState_def)
  from addFaq_appends_and_persists [OF auth addHours_question addHours_answer ne]
  obtain st' where r: "addFaq exampleRuntime addHours 1700000060000 exampleState
            = Done (Json 200 (JObj [(''success'', JBool True)]), st')"
    and f: "faqs st' = faqs exampleState @ [\<lparr>question = trim '' Opening hours? '', answer = trim ''9 to 5''\<rparr>]"
    and l: "listFaqs st' = Json 200 (faqsJson (faqs exampleState
              @ [\<lparr>question = trim '' Opening hours? '', answer = trim ''9 to 5''\<rparr>]))"
    and d: "writable exampleState (faqsPath exampleRuntime) \<longrightarrow>
                readFile st' (faqsPath exampleRuntime) = Some (JSON_stringify exampleRuntime (faqsJson (faqs st')))
                \<and> JSON_parse exampleRuntime (JSON_stringify exampleRuntime (faqsJson (faqs st')))
                      = Some (faqsJson (faqs st'))
                \<and> faqsOnDisk exampleRuntime st'"
    by blast
  have f': "faqs st' = [hoursFaq]"
    using f by (simp add: hours_trimmed exampleState_def hoursFaq_def)
  have "listFaqs st' = Json 200 (faqsJson [hoursFaq])"
    using l by (simp add: hours_trimmed exampleState_def hoursFaq_def)
  moreover have "readFile st' (faqsPath exampleRuntime) = Some hoursDoc"
    using d w by (simp add: f' hoursDoc_stringify)
  moreover have "JSON_parse exampleRuntime hoursDoc = Some (faqsJson [hoursFaq])"
    using d w by (simp add: f' hoursDoc_stringify)
  moreover have "faqsOnDisk exampleRuntime st'"
    using d w by simp
  ultimately show ?thesis
    using r f' by blast
qed

text \<open>The claim as stated, for every such request, fails where the write fails: the
  answer is 200 and \<^verbatim>\<open>faqs\<close> holds the new entry, while \<^verbatim>\<open>faqs.json\<close> is readable and
  still parses to the empty sequence.\<close>

theorem addFaq_write_failure_counterexample:
  "addFaq exampleRuntime addHours 1700000060000 readOnlyState
     = Done (Json 200 (JObj [(''success'', JBool True)]),
             readOnlyState\<lparr>sessions := [adminToken \<mapsto> 1700000060000], faqs := [hoursFaq]\<rparr>)
   \<and> listFaqs (readOnlyState\<lparr>sessions := [adminToken \<mapsto> 1700000060000], faqs := [hoursFaq]\<rparr>)
       = Json 200 (faqsJson [hoursFaq])
   \<and> readFile (readOnlyState\<lparr>sessions := [adminToken \<mapsto> 1700000060000], faqs := [hoursFaq]\<rparr>)
        (faqsPath exampleRuntime) = Some ''[]''
   \<and> JSON_parse exampleRuntime ''[]'' = Some (JArr [])
   \<and> faqsJson [hoursFaq] \<noteq> JArr []
   \<and> faqsOnDisk exampleRuntime
        (readOnlyState\<lparr>sessions := [adminToken \<mapsto> 1700000060000], faqs := [hoursFaq]\<rparr>) = False"
  using addFaq_valid [of addHours 1700000060000 readOnlyState
      "readOnlyState\<lparr>sessions := [adminToken \<mapsto> 1700000060000]\<rparr>" exampleRuntime
      "'' Opening hours? ''" "''9 to 5''"]
    addHours_authenticated [of "\<lambda>p. False"] addHours_question addHours_answer hours_trimmed faqsPath_example
    parse_empty_array [of exampleRuntime] faqs_json_on_disk [of "\<lambda>p. False"]
  by (simp add: readOnlyState_def exampleState_def hoursFaq_def listFaqs_def faqsOnDisk_def faqsJson_def
      readFile_def exampleDisk_def)

text \<open>
  Claim C4. For an authenticated add-FAQ request with a valid question and answer the
  answer is 200 with \<^verbatim>\<open>{success: true}\<close> and the entry is in \<^verbatim>\<open>faqs\<close>, whatever the
  write of \<^verbatim>\<open>faqs.json\<close> does; when the write fails nothing is rolled back: the state
  is the one after the session check, with the entry appended.
\<close>

theorem addFaq_reports_success_without_write:
  assumes "isAuthenticated req now st = Done (True, st1)"
    and "field (parseBody R req) ''question'' = Some (JStr q)"
    and "field (parseBody R req) ''answer'' = Some (JStr a)"
    and "trim q \<noteq> []" and "trim a \<noteq> []"
  shows "\<exists>st'. addFaq R req now st = Done (Json 200 (JObj [(''success'', JBool True)]), st')
           \<and> faqs st' = faqs st @ [\<lparr>question = trim q, answer = trim a\<rparr>]
           \<and> listFaqs st' = Json 200 (faqsJson (faqs st @ [\<lparr>question = trim q, answer = trim a\<rparr>]))
           \<and> (\<not> writable st (faqsPath R)
                \<longrightarrow> st' = st1\<lparr>faqs := faqs st @ [\<lparr>question = trim q, answer = trim a\<rparr>]\<rparr>)"
  using addFaq_valid [OF assms]
  by (simp add: listFaqs_def)

theorem addFaq_reports_success_without_write_witness:
  "\<exists>st'. addFaq exampleRuntime addHours 1700000060000 readOnlyState
            = Done (Json 200 (JObj [(''success'', JBool True)]), st')
         \<and> faqs st' = [hoursFaq]
         \<and> listFaqs st' = Json 200 (faqsJson [hoursFaq])
         \<and> st' = readOnlyState\<lparr>sessions := [adminToken \<mapsto> 1700000060000], faqs := [hoursFaq]\<rparr>
         \<and> writable readOnlyState (faqsPath exampleRuntime) = False"
  using addFaq_reports_success_without_write [of addHours 1700000060000 readOnlyState
      "readOnlyState\<lparr>sessions := [adminToken \<mapsto> 1700000060000]\<rparr>" exampleRuntime
      "'' Opening hours? ''" "''9 to 5''"]
    addHours_authenticated [of "\<lambda>p. False"] addHours_question addHours_answer hours_trimmed
  by (simp add: readOnlyState_def exampleState_def hoursFaq_def)

subsection \<open>Locales\<close>

lemma cachedLocale_own:
  "lang \<notin> set inheritedNames \<Longrightarrow>
   cachedLocale st lang =
     Done (case localesCache st lang of Some v \<Rightarrow> if truthy v then Some v else None | None \<Rightarrow> None)"
  by (simp add: cachedLocale_def getProperty_def split: option.splits)

lemma en_not_inherited: "''en'' \<notin> set inheritedNames"
  by (simp add: inheritedNames_def)

lemma getLocale_hit:
  assumes "lang \<notin> set inheritedNames" and "localesCache st lang = Some v" and "truthy v"
  shows "getLocale R lang st = Done (v, st)"
  using assms by (subst getLocale.simps) (simp add: cachedLocale_own)

lemma getLocale_miss:
  assumes "lang \<notin> set inheritedNames" and "\<forall>v. localesCache st lang = Some v \<longrightarrow> \<not> truthy v"
  shows "getLocale R lang st =
      (if char_of (0 :: nat) \<in> set (localePath R lang) then Thrown
       else (case readFile st (localePath R lang) of
               None \<Rightarrow> if lang \<noteq> ''en'' then getLocale R ''en'' st else Done (JObj [], st)
             | Some data \<Rightarrow>
                 (case JSON_parse R data of
                    None \<Rightarrow> Done (JObj [], st)
                  | Some obj \<Rightarrow> Done (obj, st\<lparr>localesCache := (localesCache st)(lang \<mapsto> obj)\<rparr>))))"
  using assms by (subst getLocale.simps) (auto simp: cachedLocale_own split: option.splits)

lemma getLocale_returns:
  assumes "lang \<notin> set inheritedNames"
  shows "getLocale R lang st = Thrown \<or> (\<exists>v st'. getLocale R lang st = Done (v, st'))"
proof -
  have en: "getLocale R ''en'' st = Thrown \<or> (\<exists>v st'. getLocale R ''en'' st = Done (v, st'))"
    by (subst (1 2) getLocale.simps) (simp add: cachedLocale_own en_not_inherited split: option.splits)
  show ?thesis
  proof (cases "\<exists>v. localesCache st lang = Some v \<and> truthy v")
    case True
    then show ?thesis using getLocale_hit [OF assms] by blast
  next
    case False
    then have "\<forall>v. localesCache st lang = Some v \<longrightarrow> \<not> truthy v" by blast
    from getLocale_miss [OF assms this] show ?thesis
      using en by (auto split: option.splits)
  qed
qed

lemma getLocale_Done:
  assumes "lang \<notin> set inheritedNames"
    and "char_of (0 :: nat) \<notin> set (localePath R lang)"
    and "char_of (0 :: nat) \<notin> set (localePath R ''en'')"
  shows "\<exists>v st'. getLocale R lang st = Done (v, st')"
proof -
  have en: "\<exists>v st'. getLocale R ''en'' st = Done (v, st')"
    using assms(3)
    by (subst getLocale.simps) (simp add: cachedLocale_own en_not_inherited split: option.splits)
  show ?thesis
  proof (cases "\<exists>v. localesCache st lang = Some v \<and> truthy v")
    case True
    then show ?thesis using getLocale_hit [OF assms(1)] by blast
  next
    case False
    then have "\<forall>v. localesCache st lang = Some v \<longrightarrow> \<not> truthy v" by blast
    from getLocale_miss [OF assms(1) this] show ?thesis
      using en assms(2) by (auto split: option.splits)
  qed
qed

lemma localePath_examples: "localePath exampleRuntime ''fr'' = ''/srv/app/data/locales/fr.json''"
  "localePath exampleRuntime ''en'' = ''/srv/app/data/locales/en.json''"
  "localePath exampleRuntime ''de'' = ''/srv/app/data/locales/de.json''"
  by code_simp+

lemma localePath_no_nul: "char_of (0 :: nat) \<notin> set (localePath exampleRuntime ''fr'')"
  "char_of (0 :: nat) \<notin> set (localePath exampleRuntime ''en'')"
  "char_of (0 :: nat) \<notin> set (localePath exampleRuntime ''de'')"
  by code_simp+

lemma nul_char: "char_of (0 :: nat) = CHR 0x00"
  by (simp add: char_of_def)

lemma localePath_nul: "char_of (0 :: nat) \<in> set (localePath exampleRuntime [char_of (0 :: nat)])"
  by code_simp

lemma parse_examples: "JSON_parse exampleRuntime brokenDoc = None"
  "JSON_parse exampleRuntime enDoc = Some (JObj [(''greeting'', JStr ''Hello'')])"
  by code_simp+

lemma locale_files: "readFile exampleState ''/srv/app/data/locales/fr.json'' = Some brokenDoc"
  "readFile exampleState ''/srv/app/data/locales/en.json'' = Some enDoc"
  "readFile exampleState ''/srv/app/data/locales/de.json'' = None"
  by (simp_all add: readFile_def exampleState_def exampleDisk_def)

lemma not_inherited_examples: "''fr'' \<notin> set inheritedNames" "''de'' \<notin> set inheritedNames"
  "[char_of (0 :: nat)] \<notin> set inheritedNames"
  by (simp_all add: inheritedNames_def)

lemma cachedLocale_example: "cachedLocale exampleState lang = (if lang \<in> set inheritedNames then OffModel else Done None)"
  by (simp add: cachedLocale_def getProperty_def exampleState_def)

text \<open>A language code with a NUL character, which a chat request can carry: the promise
  of \<open>getLocale\<close> rejects and the request is answered with 500.\<close>

lemma getLocale_nul_example: "getLocale exampleRuntime [char_of (0 :: nat)] exampleState = Thrown"
  using getLocale_miss [OF not_inherited_examples(3), of exampleState exampleRuntime] localePath_nul
  by (simp add: exampleState_def)

lemma askNulLang_body:
  "parseBody exampleRuntime askNulLang =
     JObj [(''question'', JStr ''What is the meaning of life?''), (''lang'', JStr [char_of (0 :: nat)])]"
  by code_simp

lemma chat_nul_language: "chat exampleRuntime askNulLang exampleState = Done (serverError, exampleState)"
proof -
  have "trimmedOr (Some (JStr ''What is the meaning of life?'')) [] = Some ''What is the meaning of life?''"
    "trimmedOr (Some (JStr [char_of (0 :: nat)])) ''en'' = Some [char_of (0 :: nat)]"
    by code_simp+
  moreover have "chatMatch (faqs exampleState) ''What is the meaning of life?'' = None"
    by (simp add: exampleState_def chatMatch_def)
  ultimately show ?thesis
    by (simp add: chat_def askNulLang_body noAnswer_def getLocale_nul_example)
qed

text \<open>
  Claim C5, as amended. For a language code that is not the name of a property plain
  objects inherit, \<open>getLocale\<close> returns the cached value when a truthy one is cached.
  Otherwise, when the path of the language's document holds a NUL character, the promise
  rejects and no mapping is returned. Otherwise it reads the document: a document that
  parses is cached and returned; a document that does not parse gives the empty mapping
  at once, with no fallback; a document that cannot be read gives the result of
  \<open>getLocale\<close> for \<^verbatim>\<open>en\<close> when the language is another one, and the empty mapping for
  \<^verbatim>\<open>en\<close> itself, so that the fallback is entered at most once. The function always ends,
  and it returns a mapping when neither path holds a NUL character.
\<close>

theorem getLocale_cases:
  assumes "lang \<notin> set inheritedNames"
  shows "(\<forall>v. localesCache st lang = Some v \<and> truthy v \<longrightarrow> getLocale R lang st = Done (v, st))
       \<and> ((\<forall>v. localesCache st lang = Some v \<longrightarrow> \<not> truthy v) \<longrightarrow>
            (char_of (0 :: nat) \<in> set (localePath R lang) \<longrightarrow> getLocale R lang st = Thrown)
          \<and> (char_of (0 :: nat) \<notin> set (localePath R lang) \<longrightarrow>
               (\<forall>data obj. readFile st (localePath R lang) = Some data \<and> JSON_parse R data = Some obj \<longrightarrow>
                  getLocale R lang st = Done (obj, st\<lparr>localesCache := (localesCache st)(lang \<mapsto> obj)\<rparr>))
             \<and> (\<forall>data. readFile st (localePath R lang) = Some data \<and> JSON_parse R data = None \<longrightarrow>
                  getLocale R lang st = Done (JObj [], st))
             \<and> (readFile st (localePath R lang) = None \<and> lang \<noteq> ''en'' \<longrightarrow>
                  getLocale R lang st = getLocale R ''en'' st)
             \<and> (readFile st (localePath R lang) = None \<and> lang = ''en'' \<longrightarrow>
                  getLocale R lang st = Done (JObj [], st))))
       \<and> (getLocale R lang st = Thrown \<or> (\<exists>v st'. getLocale R lang st = Done (v, st')))
       \<and> (char_of (0 :: nat) \<notin> set (localePath R lang) \<and> char_of (0 :: nat) \<notin> set (localePath R ''en'')
            \<longrightarrow> (\<exists>v st'. getLocale R lang st = Done (v, st')))"
proof (intro conjI)
  show "\<forall>v. localesCache st lang = Some v \<and> truthy v \<longrightarrow> getLocale R lang st = Done (v, st)"
    using assms by (simp add: getLocale_hit)
  show "(\<forall>v. localesCache st lang = Some v \<longrightarrow> \<not> truthy v) \<longrightarrow>
            (char_of (0 :: nat) \<in> set (localePath R lang) \<longrightarrow> getLocale R lang st = Thrown)
          \<and> (char_of (0 :: nat) \<notin> set (localePath R lang) \<longrightarrow>
               (\<forall>data obj. readFile st (localePath R lang) = Some data \<and> JSON_parse R data = Some obj \<longrightarrow>
                  getLocale R lang st = Done (obj, st\<lparr>localesCache := (localesCache st)(lang \<mapsto> obj)\<rparr>))
             \<and> (\<forall>data. readFile st (localePath R lang) = Some data \<and> JSON_parse R data = None \<longrightarrow>
                  getLocale R lang st = Done (JObj [], st))
             \<and> (readFile st (localePath R lang) = None \<and> lang \<noteq> ''en'' \<longrightarrow>
                  getLocale R lang st = getLocale R ''en'' st)
             \<and> (readFile st (localePath R lang) = None \<and> lang = ''en'' \<longrightarrow>
                  getLocale R lang st = Done (JObj [], st)))"
    using assms by (auto simp: getLocale_miss)
  show "getLocale R lang st = Thrown \<or> (\<exists>v st'. getLocale R lang st = Done (v, st'))"
    using assms by (rule getLocale_returns)
  show "char_of (0 :: nat) \<notin> set (localePath R lang) \<and> char_of (0 :: nat) \<notin> set (localePath R ''en'')
            \<longrightarrow> (\<exists>v st'. getLocale R lang st = Done (v, st'))"
    using assms getLocale_Done by blast
qed

theorem getLocale_cases_witness:
  "getLocale exampleRuntime ''fr'' exampleState = Done (JObj [], exampleState)
   \<and> getLocale exampleRuntime ''de'' exampleState = getLocale exampleRuntime ''en'' exampleState
   \<and> getLocale exampleRuntime ''en'' exampleState =
       Done (JObj [(''greeting'', JStr ''Hello'')],
             exampleState\<lparr>localesCache := [''en'' \<mapsto> JObj [(''greeting'', JStr ''Hello'')]]\<rparr>)
   \<and> getLocale exampleRuntime ''en''
        (exampleState\<lparr>localesCache := [''en'' \<mapsto> JObj [(''greeting'', JStr ''Hello'')]]\<rparr>) =
       Done (JObj [(''greeting'', JStr ''Hello'')],
             exampleState\<lparr>localesCache := [''en'' \<mapsto> JObj [(''greeting'', JStr ''Hello'')]]\<rparr>)
   \<and> getLocale exampleRuntime ''en'' (exampleState\<lparr>disk := Map.empty\<rparr>)
       = Done (JObj [], exampleState\<lparr>disk := Map.empty\<rparr>)
   \<and> getLocale exampleRuntime [char_of (0 :: nat)] exampleState = Thrown"
proof -
  have c: "localesCache exampleState = Map.empty"
    by (simp add: exampleState_def)
  have "getLocale exampleRuntime ''en'' (exampleState\<lparr>disk := Map.empty\<rparr>)
      = Done (JObj [], exampleState\<lparr>disk := Map.empty\<rparr>)"
    using getLocale_cases [OF en_not_inherited, of "exampleState\<lparr>disk := Map.empty\<rparr>" exampleRuntime]
    by (simp add: exampleState_def readFile_def localePath_no_nul)
  moreover
  have "getLocale exampleRuntime ''fr'' exampleState = Done (JObj [], exampleState)"
    using getLocale_cases [OF not_inherited_examples(1), of exampleState exampleRuntime]
    by (simp add: c localePath_examples parse_examples locale_files nul_char)
  moreover have "getLocale exampleRuntime ''de'' exampleState = getLocale exampleRuntime ''en'' exampleState"
    using getLocale_cases [OF not_inherited_examples(2), of exampleState exampleRuntime]
    by (simp add: c localePath_examples parse_examples locale_files nul_char)
  moreover have "getLocale exampleRuntime ''en'' exampleState =
       Done (JObj [(''greeting'', JStr ''Hello'')],
             exampleState\<lparr>localesCache := [''en'' \<mapsto> JObj [(''greeting'', JStr ''Hello'')]]\<rparr>)"
    using getLocale_cases [OF en_not_inherited, of exampleState exampleRuntime]
    by (simp add: c localePath_examples parse_examples locale_files nul_char)
  moreover have "getLocale exampleRuntime ''en''
        (exampleState\<lparr>localesCache := [''en'' \<mapsto> JObj [(''greeting'', JStr ''Hello'')]]\<rparr>) =
       Done (JObj [(''greeting'', JStr ''Hello'')],
             exampleState\<lparr>localesCache := [''en'' \<mapsto> JObj [(''greeting'', JStr ''Hello'')]]\<rparr>)"
    using getLocale_cases [OF en_not_inherited,
        of "exampleState\<lparr>localesCache := [''en'' \<mapsto> JObj [(''greeting'', JStr ''Hello'')]]\<rparr>" exampleRuntime]
    by simp
  moreover have "getLocale exampleRuntime [char_of (0 :: nat)] exampleState = Thrown"
    using getLocale_cases [OF not_inherited_examples(3), of exampleState exampleRuntime] localePath_nul
    by (simp add: c)
  ultimately show ?thesis by simp
qed

text \<open>The claim as stated sends every failure of a language other than \<^verbatim>\<open>en\<close> to the
  fallback. With \<^verbatim>\<open>fr.json\<close> present and not parsable, and \<^verbatim>\<open>en.json\<close> in order, the
  source returns the empty mapping, the specification's function the English one.\<close>

theorem getLocale_parse_failure_counterexample:
  "getLocale exampleRuntime ''fr'' exampleState = Done (JObj [], exampleState)
   \<and> getLocaleSpec exampleRuntime ''fr'' exampleState =
       Done (JObj [(''greeting'', JStr ''Hello'')],
             exampleState\<lparr>localesCache := [''en'' \<mapsto> JObj [(''greeting'', JStr ''Hello'')]]\<rparr>)
   \<and> getLocale exampleRuntime ''fr'' exampleState \<noteq> getLocaleSpec exampleRuntime ''fr'' exampleState"
proof -
  have "getLocale exampleRuntime ''fr'' exampleState = Done (JObj [], exampleState)"
    by (subst getLocale.simps)
      (simp add: localePath_examples parse_examples locale_files not_inherited_examples cachedLocale_example nul_char)
  moreover have "getLocaleSpec exampleRuntime ''en'' exampleState =
       Done (JObj [(''greeting'', JStr ''Hello'')],
             exampleState\<lparr>localesCache := [''en'' \<mapsto> JObj [(''greeting'', JStr ''Hello'')]]\<rparr>)"
    by (subst getLocaleSpec.simps)
      (simp add: localePath_examples parse_examples locale_files cachedLocale_example en_not_inherited,
        simp add: exampleState_def)
  moreover have "getLocaleSpec exampleRuntime ''fr'' exampleState = getLocaleSpec exampleRuntime ''en'' exampleState"
    by (subst getLocaleSpec.simps)
      (simp add: localePath_examples parse_examples locale_files not_inherited_examples cachedLocale_example nul_char)
  ultimately show ?thesis by simp
qed

subsection \<open>Chat\<close>

text \<open>\<open>includes_str\<close> is the substring test.\<close>

lemma includes_str_iff: "includes_str s p \<longleftrightarrow> (\<exists>u v. s = u @ p @ v)"
proof (induction s)
  case Nil
  then show ?case by auto
next
  case (Cons c cs)
  show ?case
  proof
    assume "includes_str (c # cs) p"
    then consider "startsWith (c # cs) p" | "includes_str cs p" by auto
    then show "\<exists>u v. c # cs = u @ p @ v"
    proof cases
      case 1
      then obtain v where "c # cs = p @ v" by (auto simp: startsWith_prefix)
      then have "c # cs = [] @ p @ v" by simp
      then show ?thesis by blast
    next
      case 2
      then obtain u v where "cs = u @ p @ v" using Cons.IH by blast
      then have "c # cs = (c # u) @ p @ v" by simp
      then show ?thesis by blast
    qed
  next
    assume "\<exists>u v. c # cs = u @ p @ v"
    then obtain u v where uv: "c # cs = u @ p @ v" by blast
    show "includes_str (c # cs) p"
    proof (cases u)
      case Nil
      then have "startsWith (c # cs) p" using uv by (auto simp: startsWith_prefix)
      then show ?thesis by simp
    next
      case (Cons d u')
      then have "cs = u' @ p @ v" using uv by simp
      then have "includes_str cs p" using Cons.IH by blast
      then show ?thesis by simp
    qed
  qed
qed

lemma find_first:
  assumes "i < length xs" and "P (xs ! i)" and "\<forall>j < i. \<not> P (xs ! j)"
  shows "find P xs = Some (xs ! i)"
  using assms by (auto simp: find_Some_iff)

text \<open>The search, with the two tests written out: equality in lower case, and one
  question inside the other in lower case.\<close>

lemma chatMatch_exact:
  assumes "q \<noteq> []" and "i < length fs"
    and "toLowerCase (question (fs ! i)) = toLowerCase q"
    and "\<forall>j < i. toLowerCase (question (fs ! j)) \<noteq> toLowerCase q"
  shows "chatMatch fs q = Some (answer (fs ! i))"
proof -
  have "find (\<lambda>faq. toLowerCase (question faq) = toLowerCase q) fs = Some (fs ! i)"
    using assms(2-4) by (intro find_first) simp_all
  then show ?thesis
    using assms(1) by (simp add: chatMatch_def)
qed

lemma chatMatch_partial:
  assumes "q \<noteq> []" and "\<forall>f \<in> set fs. toLowerCase (question f) \<noteq> toLowerCase q"
    and "i < length fs"
    and "(\<exists>u v. toLowerCase q = u @ toLowerCase (question (fs ! i)) @ v)
         \<or> (\<exists>u v. toLowerCase (question (fs ! i)) = u @ toLowerCase q @ v)"
    and "\<forall>j < i. \<not> ((\<exists>u v. toLowerCase q = u @ toLowerCase (question (fs ! j)) @ v)
                    \<or> (\<exists>u v. toLowerCase (question (fs ! j)) = u @ toLowerCase q @ v))"
  shows "chatMatch fs q = Some (answer (fs ! i))"
proof -
  have "find (\<lambda>faq. toLowerCase (question faq) = toLowerCase q) fs = None"
    using assms(2) by (simp add: find_None_iff)
  moreover
  have "find (\<lambda>faq. includes_str (toLowerCase q) (toLowerCase (question faq))
                     \<or> includes_str (toLowerCase (question faq)) (toLowerCase q)) fs = Some (fs ! i)"
    using assms(3-5) by (intro find_first) (simp_all add: includes_str_iff)
  ultimately show ?thesis
    using assms(1) by (simp add: chatMatch_def)
qed

lemma chatMatch_none:
  assumes "q \<noteq> []"
    and "\<forall>f \<in> set fs. toLowerCase (question f) \<noteq> toLowerCase q
           \<and> \<not> ((\<exists>u v. toLowerCase q = u @ toLowerCase (question f) @ v)
                \<or> (\<exists>u v. toLowerCase (question f) = u @ toLowerCase q @ v))"
  shows "chatMatch fs q = None"
proof -
  have "find (\<lambda>faq. toLowerCase (question faq) = toLowerCase q) fs = None"
    using assms(2) by (simp add: find_None_iff)
  moreover
  have "find (\<lambda>faq. includes_str (toLowerCase q) (toLowerCase (question faq))
                     \<or> includes_str (toLowerCase (question faq)) (toLowerCase q)) fs = None"
    using assms(2) by (simp add: find_None_iff includes_str_iff)
  ultimately show ?thesis
    using assms(1) by (simp add: chatMatch_def)
qed

text \<open>The inputs of the examples in lower case, and which stored questions they hold or
  are held by.\<close>

lemma lower_examples:
  "toLowerCase ''HELLO WORLD'' = ''hello world''"
  "toLowerCase ''HELLO world'' = ''hello world''"
  "toLowerCase ''Hello World'' = ''hello world''"
  "toLowerCase ''hello world'' = ''hello world''"
  "toLowerCase ''hello'' = ''hello''"
  "toLowerCase ''Q1'' = ''q1''"
  "toLowerCase ''what are your hours'' = ''what are your hours''"
  "toLowerCase ''Can you tell me what are your hours today?'' = ''can you tell me what are your hours today?''"
  by code_simp+

lemma hours_inside_question:
  "(\<exists>u v. toLowerCase ''Can you tell me what are your hours today?''
            = u @ toLowerCase (question ([hoursLongFaq] ! 0)) @ v)
   \<or> (\<exists>u v. toLowerCase (question ([hoursLongFaq] ! 0))
            = u @ toLowerCase ''Can you tell me what are your hours today?'' @ v)"
proof -
  have "includes_str (toLowerCase ''Can you tell me what are your hours today?'')
          (toLowerCase (question ([hoursLongFaq] ! 0)))"
    by code_simp
  then show ?thesis
    unfolding includes_str_iff by (rule disjI1)
qed

lemma hours_no_exact:
  "\<forall>f \<in> set [hoursLongFaq]. toLowerCase (question f) \<noteq> toLowerCase ''Can you tell me what are your hours today?''"
  by (simp add: hoursLongFaq_def lower_examples)

lemma hello_not_in_hours:
  "\<forall>f \<in> set [hoursLongFaq]. toLowerCase (question f) \<noteq> toLowerCase ''HELLO WORLD''
       \<and> \<not> ((\<exists>u v. toLowerCase ''HELLO WORLD'' = u @ toLowerCase (question f) @ v)
            \<or> (\<exists>u v. toLowerCase (question f) = u @ toLowerCase ''HELLO WORLD'' @ v))"
proof -
  have "toLowerCase (question hoursLongFaq) \<noteq> toLowerCase ''HELLO WORLD''"
    "\<not> includes_str (toLowerCase ''HELLO WORLD'') (toLowerCase (question hoursLongFaq))"
    "\<not> includes_str (toLowerCase (question hoursLongFaq)) (toLowerCase ''HELLO WORLD'')"
    by code_simp+
  then show ?thesis
    unfolding includes_str_iff by simp
qed

text \<open>
  Claim C6. For a question that is not empty, the search first takes the first FAQ, in
  insertion order, whose question equals the input when both are put in lower case; only
  when there is none, the first FAQ whose question in lower case holds the input in lower
  case or is held by it; and when there is none either, it gives no answer.
\<close>

theorem chatMatch_exact_first:
  assumes "q \<noteq> []"
  shows "(\<forall>i < length fs. toLowerCase (question (fs ! i)) = toLowerCase q
              \<and> (\<forall>j < i. toLowerCase (question (fs ! j)) \<noteq> toLowerCase q)
            \<longrightarrow> chatMatch fs q = Some (answer (fs ! i)))
       \<and> ((\<forall>f \<in> set fs. toLowerCase (question f) \<noteq> toLowerCase q) \<longrightarrow>
            (\<forall>i < length fs.
                ((\<exists>u v. toLowerCase q = u @ toLowerCase (question (fs ! i)) @ v)
                 \<or> (\<exists>u v. toLowerCase (question (fs ! i)) = u @ toLowerCase q @ v))
                \<and> (\<forall>j < i. \<not> ((\<exists>u v. toLowerCase q = u @ toLowerCase (question (fs ! j)) @ v)
                               \<or> (\<exists>u v. toLowerCase (question (fs ! j)) = u @ toLowerCase q @ v)))
              \<longrightarrow> chatMatch fs q = Some (answer (fs ! i))))
       \<and> ((\<forall>f \<in> set fs. toLowerCase (question f) \<noteq> toLowerCase q
                \<and> \<not> ((\<exists>u v. toLowerCase q = u @ toLowerCase (question f) @ v)
                     \<or> (\<exists>u v. toLowerCase (question f) = u @ toLowerCase q @ v)))
            \<longrightarrow> chatMatch fs q = None)"
proof (intro conjI allI impI)
  fix i
  assume "i < length fs"
    and "toLowerCase (question (fs ! i)) = toLowerCase q
         \<and> (\<forall>j < i. toLowerCase (question (fs ! j)) \<noteq> toLowerCase q)"
  then show "chatMatch fs q = Some (answer (fs ! i))"
    using assms chatMatch_exact by blast
next
  fix i
  assume "\<forall>f \<in> set fs. toLowerCase (question f) \<noteq> toLowerCase q"
    and "i < length fs"
    and "((\<exists>u v. toLowerCase q = u @ toLowerCase (question (fs ! i)) @ v)
          \<or> (\<exists>u v. toLowerCase (question (fs ! i)) = u @ toLowerCase q @ v))
         \<and> (\<forall>j < i. \<not> ((\<exists>u v. toLowerCase q = u @ toLowerCase (question (fs ! j)) @ v)
                        \<or> (\<exists>u v. toLowerCase (question (fs ! j)) = u @ toLowerCase q @ v)))"
  then show "chatMatch fs q = Some (answer (fs ! i))"
    using assms chatMatch_partial [of q fs i] by blast
next
  assume "\<forall>f \<in> set fs. toLowerCase (question f) \<noteq> toLowerCase q
                \<and> \<not> ((\<exists>u v. toLowerCase q = u @ toLowerCase (question f) @ v)
                     \<or> (\<exists>u v. toLowerCase (question f) = u @ toLowerCase q @ v))"
  then show "chatMatch fs q = None"
    using assms by (rule chatMatch_none [rotated])
qed

theorem chatMatch_exact_first_witness:
  "chatMatch helloFaqs ''HELLO WORLD'' = Some ''A2''
   \<and> chatMatch greetingFaqs ''HELLO world'' = Some ''E''
   \<and> chatMatch [hoursLongFaq] ''Can you tell me what are your hours today?'' = Some ''We are open 9-5''
   \<and> chatMatch [hoursLongFaq] ''HELLO WORLD'' = None"
proof -
  have "chatMatch helloFaqs ''HELLO WORLD'' = Some (answer (helloFaqs ! 1))"
    by (rule chatMatch_exact_first [of "''HELLO WORLD''" helloFaqs, THEN conjunct1, rule_format, of 1])
      (simp_all add: helloFaqs_def lower_examples)
  moreover have "chatMatch greetingFaqs ''HELLO world'' = Some (answer (greetingFaqs ! 1))"
    by (rule chatMatch_exact_first [of "''HELLO world''" greetingFaqs, THEN conjunct1, rule_format, of 1])
      (simp_all add: greetingFaqs_def lower_examples)
  moreover have "chatMatch [hoursLongFaq] ''Can you tell me what are your hours today?''
      = Some (answer ([hoursLongFaq] ! 0))"
    using chatMatch_exact_first [of "''Can you tell me what are your hours today?''" "[hoursLongFaq]",
          THEN conjunct2, THEN conjunct1, rule_format, of 0]
      hours_no_exact hours_inside_question
    by simp
  moreover have "chatMatch [hoursLongFaq] ''HELLO WORLD'' = None"
    using chatMatch_exact_first [of "''HELLO WORLD''" "[hoursLongFaq]",
          THEN conjunct2, THEN conjunct2, rule_format]
      hello_not_in_hours
    by simp
  ultimately show ?thesis
    by (simp add: helloFaqs_def greetingFaqs_def hoursLongFaq_def)
qed

text \<open>In the second example the first stored question is inside the input and the second
  one equals it: a search by substring alone would answer with the first.\<close>

lemma greeting_substring_first:
  "includes_str (toLowerCase ''HELLO world'') (toLowerCase (question (greetingFaqs ! 0)))"
  "answer (greetingFaqs ! 0) = ''P''"
  by code_simp+

text \<open>
  Claim C7. For a chat request whose body is not \<^verbatim>\<open>null\<close>, whose question (absent, falsy or a
  string) matches no FAQ and whose language comes out as \<^verbatim>\<open>en\<close>, when the locale that
  \<open>getLocale\<close> returns for \<^verbatim>\<open>en\<close> is a mapping with no key \<^verbatim>\<open>chat_no_answer\<close>, the
  answer is 200 with the fixed default string.
\<close>

theorem chat_default_answer:
  assumes "parseBody R req \<noteq> JNull"
    and "trimmedOr (field (parseBody R req) ''question'') [] = Some q"
    and "trimmedOr (field (parseBody R req) ''lang'') ''en'' = Some ''en''"
    and "chatMatch (faqs st) q = None"
    and "getLocale R ''en'' st = Done (JObj kvs, st')"
    and "map_of kvs ''chat_no_answer'' = None"
  shows "chat R req st =
           Done (Json 200 (JObj [(''answer'', JStr ''Sorry, I don't know the answer.'')]), st')"
  using assms by (simp add: chat_def noAnswer_def defaultAnswer_def)

lemma askLife_body: "parseBody exampleRuntime askLife = JObj [(''question'', JStr ''What is the meaning of life?'')]"
  by code_simp

lemma askLife_fields: "trimmedOr (Some (JStr ''What is the meaning of life?'')) [] = Some ''What is the meaning of life?''"
  "trimmedOr None ''en'' = Some ''en''"
  by code_simp+

lemma askLife_no_match: "chatMatch helloFaqs ''What is the meaning of life?'' = None"
  by code_simp

lemma getLocale_en_example: "getLocale exampleRuntime ''en'' (exampleState\<lparr>faqs := helloFaqs\<rparr>) =
    Done (JObj [(''greeting'', JStr ''Hello'')],
          exampleState\<lparr>faqs := helloFaqs, localesCache := [''en'' \<mapsto> JObj [(''greeting'', JStr ''Hello'')]]\<rparr>)"
proof -
  have "readFile (exampleState\<lparr>faqs := helloFaqs\<rparr>) (localePath exampleRuntime ''en'') = Some enDoc"
    using locale_files(2) by (simp add: localePath_examples readFile_def)
  then show ?thesis
    using getLocale_miss [OF en_not_inherited, of "exampleState\<lparr>faqs := helloFaqs\<rparr>" exampleRuntime]
      localePath_no_nul(2)
    by (simp add: parse_examples exampleState_def)
qed

theorem chat_default_answer_witness:
  "chat exampleRuntime askLife (exampleState\<lparr>faqs := helloFaqs\<rparr>) =
     Done (Json 200 (JObj [(''answer'', JStr ''Sorry, I don't know the answer.'')]),
           exampleState\<lparr>faqs := helloFaqs, localesCache := [''en'' \<mapsto> JObj [(''greeting'', JStr ''Hello'')]]\<rparr>)"
  using chat_default_answer [of exampleRuntime askLife "''What is the meaning of life?''"
      "exampleState\<lparr>faqs := helloFaqs\<rparr>" "[(''greeting'', JStr ''Hello'')]"
      "exampleState\<lparr>faqs := helloFaqs, localesCache := [''en'' \<mapsto> JObj [(''greeting'', JStr ''Hello'')]]\<rparr>"]
    askLife_body askLife_fields askLife_no_match getLocale_en_example
  by simp

subsection \<open>Suggestions\<close>

lemma drawIndices_Some:
  assumes "drawIndices count acc draws = Some indices" and "distinct acc" and "length acc \<le> count"
  shows "distinct indices \<and> length indices = count \<and> set indices \<subseteq> set acc \<union> set draws"
  using assms
proof (induction draws arbitrary: acc)
  case Nil
  then show ?case by (auto split: if_splits)
next
  case (Cons r rs)
  show ?case
  proof (cases "length acc < count")
    case True
    let ?acc = "if r \<in> set acc then acc else acc @ [r]"
    have "drawIndices count ?acc rs = Some indices"
      using Cons.prems(1) True by simp
    moreover have "distinct ?acc" "length ?acc \<le> count"
      using Cons.prems(2) True by auto
    ultimately have "distinct indices \<and> length indices = count \<and> set indices \<subseteq> set ?acc \<union> set rs"
      by (rule Cons.IH)
    then show ?thesis by (auto split: if_splits)
  next
    case False
    then show ?thesis using Cons.prems by auto
  qed
qed

lemma drawIndices_returns:
  assumes "count \<le> card (set acc \<union> set draws)" and "distinct acc"
  shows "drawIndices count acc draws \<noteq> None"
  using assms
proof (induction draws arbitrary: acc)
  case Nil
  then show ?case by (simp add: distinct_card)
next
  case (Cons r rs)
  let ?acc = "if r \<in> set acc then acc else acc @ [r]"
  have "set ?acc \<union> set rs = set acc \<union> set (r # rs)" by auto
  then have "count \<le> card (set ?acc \<union> set rs)" using Cons.prems(1) by simp
  moreover have "distinct ?acc" using Cons.prems(2) by simp
  ultimately have "drawIndices count ?acc rs \<noteq> None" by (rule Cons.IH)
  then show ?case by simp
qed

lemma threeFaqs_example: "length threeFaqs = 3"
  "suggestions [2, 2, 0, 1] (exampleState\<lparr>faqs := threeFaqs\<rparr>) =
     Some (Json 200 (JArr [JStr ''what are your hours'', JStr ''Q1'', JStr ''hello world'']))"
  by code_simp+

text \<open>The loop goes on for as long as the draws repeat: on draws that are all the same
  it does not return.\<close>

lemma suggestions_constant_draws:
  "suggestions [2, 2, 2, 2, 2, 2] (exampleState\<lparr>faqs := threeFaqs\<rparr>) = None"
  by code_simp

text \<open>
  Claim C9. With \<open>n\<close> FAQs and draws below \<open>n\<close>, whatever \<^verbatim>\<open>GET /api/faqs-suggestions\<close>
  returns is 200 with the questions at \<open>min 5 n\<close> indices of \<^verbatim>\<open>faqs\<close>, no index twice;
  and it returns as soon as the draws hold \<open>min 5 n\<close> different values.
\<close>

theorem suggestions_distinct_questions:
  assumes "\<forall>r \<in> set draws. r < length (faqs st)"
  shows "(\<forall>reply. suggestions draws st = Some reply \<longrightarrow>
            (\<exists>indices. reply = Json 200 (JArr (map (\<lambda>i. JStr (question (faqs st ! i))) indices))
               \<and> length indices = min 5 (length (faqs st)) \<and> distinct indices
               \<and> (\<forall>i \<in> set indices. i < length (faqs st))))
       \<and> (min 5 (length (faqs st)) \<le> card (set draws) \<longrightarrow> suggestions draws st \<noteq> None)"
proof (intro conjI allI impI)
  fix reply
  assume "suggestions draws st = Some reply"
  then obtain indices where d: "drawIndices (min 5 (length (faqs st))) [] draws = Some indices"
    and r: "reply = (if \<forall>i \<in> set indices. i < length (faqs st)
                     then Json 200 (JArr (map (\<lambda>i. JStr (question (faqs st ! i))) indices))
                     else serverError)"
    by (auto simp: suggestions_def Let_def split: option.splits)
  from drawIndices_Some [OF d] have p: "distinct indices" "length indices = min 5 (length (faqs st))"
    "set indices \<subseteq> set draws" by auto
  then have "\<forall>i \<in> set indices. i < length (faqs st)" using assms by blast
  then show "\<exists>indices. reply = Json 200 (JArr (map (\<lambda>i. JStr (question (faqs st ! i))) indices))
               \<and> length indices = min 5 (length (faqs st)) \<and> distinct indices
               \<and> (\<forall>i \<in> set indices. i < length (faqs st))"
    using r p by auto
next
  assume "min 5 (length (faqs st)) \<le> card (set draws)"
  then have "drawIndices (min 5 (length (faqs st))) [] draws \<noteq> None"
    using drawIndices_returns [of "min 5 (length (faqs st))" "[]" draws] by simp
  then show "suggestions draws st \<noteq> None"
    by (auto simp: suggestions_def Let_def split: option.splits)
qed

theorem suggestions_distinct_questions_witness:
  "suggestions [2, 2, 0, 1] (exampleState\<lparr>faqs := threeFaqs\<rparr>) =
     Some (Json 200 (JArr [JStr ''what are your hours'', JStr ''Q1'', JStr ''hello world'']))
   \<and> (\<exists>indices. Json 200 (JArr [JStr ''what are your hours'', JStr ''Q1'', JStr ''hello world''])
          = Json 200 (JArr (map (\<lambda>i. JStr (question (threeFaqs ! i))) indices))
        \<and> length indices = 3 \<and> distinct indices \<and> (\<forall>i \<in> set indices. i < 3))
   \<and> suggestions [0, 1, 2] (exampleState\<lparr>faqs := threeFaqs\<rparr>) \<noteq> None"
proof -
  have f: "faqs (exampleState\<lparr>faqs := threeFaqs\<rparr>) = threeFaqs"
    by simp
  have m: "min (5 :: nat) 3 = 3"
    by simp
  have b: "\<forall>r \<in> set [2, 2, 0, 1]. r < length (faqs (exampleState\<lparr>faqs := threeFaqs\<rparr>))"
    by (simp add: threeFaqs_example)
  have b': "\<forall>r \<in> set [0, 1, 2]. r < length (faqs (exampleState\<lparr>faqs := threeFaqs\<rparr>))"
    by (simp add: threeFaqs_example)
  have c: "min 5 (length (faqs (exampleState\<lparr>faqs := threeFaqs\<rparr>))) \<le> card (set [0, 1, 2 :: nat])"
    by (simp add: threeFaqs_example)
  note suggestions_distinct_questions [OF b, THEN conjunct1, rule_format, OF threeFaqs_example(2), unfolded f threeFaqs_example(1) m]
  moreover note suggestions_distinct_questions [OF b', THEN conjunct2, rule_format, OF c]
  ultimately show ?thesis using threeFaqs_example(2) by blast
qed



subsection \<open>Image upload\<close>

text \<open>The pattern accepts exactly the inputs \<^verbatim>\<open>data:image/png;base64,<p>\<close> and
  \<^verbatim>\<open>data:image/jpeg;base64,<p>\<close> with a payload \<open>p\<close> that is not empty and holds no line
  terminator.\<close>

lemma startsWith_drop: "startsWith s h \<Longrightarrow> s = h @ drop (length h) s"
  by (metis append_take_drop_id startsWith_def)

lemma startsWith_append: "startsWith (h @ v) h"
  by (simp add: startsWith_def)

lemma header_payload:
  "startsWith u h \<and> P (drop (length h) u) \<longleftrightarrow> (\<exists>p. u = h @ p \<and> P p)"
proof
  assume "startsWith u h \<and> P (drop (length h) u)"
  then have "u = h @ drop (length h) u \<and> P (drop (length h) u)"
    using startsWith_drop by blast
  then show "\<exists>p. u = h @ p \<and> P p" ..
next
  assume "\<exists>p. u = h @ p \<and> P p"
  then show "startsWith u h \<and> P (drop (length h) u)"
    by (auto simp: startsWith_append)
qed

lemma dataUriMatch_cases:
  "dataUriMatch u =
     (if \<exists>p. u = ''data:image/png;base64,'' @ p \<and> p \<noteq> [] \<and> list_all (\<lambda>c. \<not> isLineTerminator c) p
      then Some (''png'', drop (length ''data:image/png;base64,'') u)
      else if \<exists>p. u = ''data:image/jpeg;base64,'' @ p \<and> p \<noteq> [] \<and> list_all (\<lambda>c. \<not> isLineTerminator c) p
      then Some (''jpeg'', drop (length ''data:image/jpeg;base64,'') u)
      else None)"
  unfolding dataUriMatch_def Let_def
    header_payload [where P = "\<lambda>p. p \<noteq> [] \<and> list_all (\<lambda>c. \<not> isLineTerminator c) p"]
  by (rule refl)

lemma dataUriMatch_iff: "dataUriMatch u = Some (m, p) \<longleftrightarrow> acceptedUri u m p"
  unfolding dataUriMatch_cases acceptedUri_def by auto



lemma saveImage_rejected:
  "dataUriMatch u = None \<Longrightarrow> saveImage R now bytes u prefix st = Some (None, st)"
  by (simp add: saveImage_def)

lemma saveImage_accepted:
  assumes "acceptedUri u m p"
  shows "saveImage R now bytes u prefix st =
     (let filename = imageName prefix now bytes (if m = ''jpeg'' then ''jpg'' else m)
      in if writable st (imagePath R filename)
         then Some (Some (''assets/img/'' @ filename),
                    st\<lparr>disk := (disk st)(imagePath R filename \<mapsto> File (base64 R p))\<rparr>)
         else None)"
  using assms [folded dataUriMatch_iff] by (simp add: saveImage_def Let_def writeFileSync_def)



lemma digits_small: "n < 10 \<Longrightarrow> digits n = [char_of (48 + n)]"
  by (subst digits.simps) simp

lemma digits_large: "10 \<le> n \<Longrightarrow> digits n = digits (n div 10) @ [char_of (48 + n mod 10)]"
  by (subst digits.simps) simp

lemma showInt_example: "showInt 1700000000000 = ''1700000000000''"
  by (simp add: showInt_def digits_small digits_large char_of_def bit_0)

lemma toHex_example: "toHex deadbeef = ''deadbeef''"
  by code_simp


lemma pngUpload_accepted: "acceptedUri pngUpload ''png'' ''QUJD''"
  by code_simp


lemma imageName_examples: "imageName ''before'' 1700000000000 deadbeef ''png'' = ''before-1700000000000-deadbeef.png''"
  "imageName ''after'' 1700000060002 deadbeef ''png'' = ''after-1700000060002-deadbeef.png''"
  by (simp_all add: imageName_def toHex_example showInt_def digits_small digits_large char_of_def bit_0)

lemma imagePath_examples: "imagePath exampleRuntime ''before-1700000000000-deadbeef.png''
    = ''/srv/app/public/assets/img/before-1700000000000-deadbeef.png''"
  "imagePath exampleRuntime ''after-1700000060002-deadbeef.png''
    = ''/srv/app/public/assets/img/after-1700000060002-deadbeef.png''"
  by code_simp+

lemma base64_example: "base64 exampleRuntime ''QUJD'' = ''ABC''"
  by code_simp

lemma wrapped_payload_no_match: "dataUriMatch (''data:image/png;base64,QUJD'' @ nl) = None"
  by code_simp

lemma upload_bodies:
  "parseBody exampleRuntime uploadGif = JObj [(''before'', JStr gifUpload), (''after'', JStr pngUpload)]"
  "parseBody exampleRuntime uploadGifAfter = JObj [(''before'', JStr pngUpload), (''after'', JStr gifUpload)]"
  "parseBody exampleRuntime uploadObject = JObj [(''before'', JStr pngUpload), (''after'', JObj [(''toString'', JNum 1)])]"
  by code_simp+

lemma imageName_before_example:
  "imageName ''before'' 1700000060001 deadbeef ''png'' = ''before-1700000060001-deadbeef.png''"
  by (simp add: imageName_def toHex_example showInt_def digits_small digits_large char_of_def bit_0)

lemma imagePath_before_example: "imagePath exampleRuntime ''before-1700000060001-deadbeef.png''
    = ''/srv/app/public/assets/img/before-1700000060001-deadbeef.png''"
  by code_simp

lemma saveImage_before_example: "saveImage exampleRuntime 1700000060001 deadbeef pngUpload ''before''
      (exampleState\<lparr>sessions := [adminToken \<mapsto> 1700000060000]\<rparr>) =
     Some (Some ''assets/img/before-1700000060001-deadbeef.png'',
           exampleState\<lparr>sessions := [adminToken \<mapsto> 1700000060000], disk := exampleDisk
             (''/srv/app/public/assets/img/before-1700000060001-deadbeef.png'' \<mapsto> File ''ABC'')\<rparr>)"
  using saveImage_accepted [OF pngUpload_accepted, of exampleRuntime 1700000060001 deadbeef "''before''"
      "exampleState\<lparr>sessions := [adminToken \<mapsto> 1700000060000]\<rparr>"]
  by (simp add: imageName_before_example imagePath_before_example base64_example Let_def exampleState_def)

lemma upload_authenticated:
  assumes "authorization req = Some (''Bearer '' @ adminToken)"
  shows "isAuthenticated req 1700000060000 exampleState =
      Done (True, exampleState\<lparr>sessions := [adminToken \<mapsto> 1700000060000]\<rparr>)"
  using isAuthenticated_bearer [of exampleState adminToken 1700000000000 req 1700000060000]
    adminToken_no_space assms
  by (simp add: exampleState_def)


text \<open>An upload whose \<^verbatim>\<open>after\<close> value is an object with a property \<^verbatim>\<open>toString\<close>: the
  pattern cannot turn it into a string, the TypeError ends in the \<^verbatim>\<open>catch\<close> of line
  325 and the answer is 500, after the first image was written.\<close>

lemma upload_object_example:
  "uploadImage exampleRuntime uploadObject 1700000060000 1700000060001 deadbeef 1700000060002 deadbeef exampleState
     = Done (saveFailed,
             exampleState\<lparr>sessions := [adminToken \<mapsto> 1700000060000], disk := exampleDisk
               (''/srv/app/public/assets/img/before-1700000060001-deadbeef.png'' \<mapsto> File ''ABC'')\<rparr>)"
proof -
  have "isAuthenticated uploadObject 1700000060000 exampleState =
      Done (True, exampleState\<lparr>sessions := [adminToken \<mapsto> 1700000060000]\<rparr>)"
    by (rule upload_authenticated) (simp add: uploadObject_def)
  moreover have "truthy (JStr pngUpload)"
    by (simp add: pngUpload_def)
  ultimately show ?thesis
    by (simp add: uploadImage_def upload_bodies saveImageOf_def saveImage_before_example)
qed





text \<open>
  Claim C10, as amended. For an input \<^verbatim>\<open>data:image/(png|jpeg);base64,<payload>\<close> whose
  payload is not empty and holds no line terminator, where the file can be written,
  \<open>saveImage\<close> returns the storage path and the file holds what the base64 decoder makes
  of the payload, whatever the payload is: nothing checks it.
\<close>

theorem saveImage_stores_decoded_payload:
  assumes "acceptedUri u m p"
    and "writable st (imagePath R (imageName prefix now bytes (if m = ''jpeg'' then ''jpg'' else m)))"
  shows "saveImage R now bytes u prefix st =
           Some (Some (''assets/img/'' @ imageName prefix now bytes (if m = ''jpeg'' then ''jpg'' else m)),
                 st\<lparr>disk := (disk st)
                    (imagePath R (imageName prefix now bytes (if m = ''jpeg'' then ''jpg'' else m))
                       \<mapsto> File (base64 R p))\<rparr>)"
  using assms(2) saveImage_accepted [OF assms(1)] by (simp add: Let_def)

theorem saveImage_stores_decoded_payload_witness:
  "saveImage exampleRuntime 1700000000000 deadbeef pngUpload ''before'' exampleState =
     Some (Some ''assets/img/before-1700000000000-deadbeef.png'',
           exampleState\<lparr>disk := exampleDisk
             (''/srv/app/public/assets/img/before-1700000000000-deadbeef.png'' \<mapsto> File ''ABC'')\<rparr>)"
  using saveImage_stores_decoded_payload [OF pngUpload_accepted, of exampleState exampleRuntime "''before''" 1700000000000 deadbeef]
  by (simp add: imageName_examples imagePath_examples base64_example) (simp add: exampleState_def)

text \<open>The claim as stated takes every payload that is not empty. A payload with a line
  break, as wrapped base64 has, does not match the pattern, and \<open>saveImage\<close> returns
  \<^verbatim>\<open>null\<close> although the file could be written.\<close>

theorem saveImage_line_terminator_counterexample:
  "saveImage exampleRuntime 1700000000000 deadbeef (''data:image/png;base64,QUJD'' @ nl) ''before'' exampleState
     = Some (None, exampleState)
   \<and> ''QUJD'' @ nl \<noteq> []
   \<and> writable exampleState = (\<lambda>p. True)"
  using saveImage_rejected [OF wrapped_payload_no_match] by (simp add: exampleState_def nl_def)



end
